theory Spec2Isabelle
  imports Main "HOL-Library.Word"
begin

section \<open>The PrivacyLearning contract: data model\<close>

text \<open>
  A shallow embedding of the Solidity contract \<open>PrivacyLearning\<close> (pragma \<open>^0.8.19\<close>).
  Solidity's fixed-width unsigned integers are words; the arithmetic of Solidity 0.8 is
  checked, so an overflowing \<open>+\<close> or \<open>*\<close> and a division by zero abort the call with a
  \<open>Panic\<close>, and a failing \<open>require\<close> aborts it with its message. Storage mappings are
  total functions whose default value is the all-zero value.
\<close>

type_synonym address = "160 word"
type_synonym uint8 = "8 word"
type_synonym uint32 = "32 word"
type_synonym uint256 = "256 word"

record LearningModule =
  name :: string
  totalLessons :: uint8
  isActive :: bool

record StudentProgress =
  lessonCompleted :: "uint8 \<Rightarrow> uint8 \<Rightarrow> bool"
  moduleProgress :: "uint8 \<Rightarrow> uint32"
  totalProgress :: uint32
  completedLessons :: uint32
  learningStreak :: uint32
  lastActiveDay :: uint256
  isEnrolled :: bool

datatype event =
    StudentEnrolled address
  | LessonCompleted address uint8 uint8
  | ModuleCompleted address uint8
  | ProgressUpdated address

text \<open>
  \<open>Revert msg\<close> is a failed \<open>require\<close> with its message; \<open>Panic 17\<close> is the
  arithmetic overflow panic (code 0x11) and \<open>Panic 18\<close> the division by zero (0x12).
\<close>

datatype error = Revert string | Panic nat

text \<open>The contract's storage, with the log of emitted events.\<close>

record contract =
  studentProgress :: "address \<Rightarrow> StudentProgress"
  learningModules :: "uint8 \<Rightarrow> LearningModule"
  owner :: address
  moduleCount :: uint8
  events :: "event list"

definition LESSONS_PER_MODULE :: uint8 where
  "LESSONS_PER_MODULE = 4"

text \<open>The names the specification gives to the failed requirements.\<close>

definition NotEnrolled :: error where
  "NotEnrolled = Revert ''Student not enrolled''"

definition AlreadyEnrolled :: error where
  "AlreadyEnrolled = Revert ''Already enrolled''"

definition UnknownModule :: error where
  "UnknownModule = Revert ''Invalid module ID''"

definition UnknownLesson :: error where
  "UnknownLesson = Revert ''Invalid lesson ID''"

definition ModuleInactive :: error where
  "ModuleInactive = Revert ''Module not active''"

definition CapacityExceeded :: error where
  "CapacityExceeded = Revert ''Maximum modules reached''"

section \<open>Checked arithmetic\<close>

definition checked_add32 :: "uint32 \<Rightarrow> uint32 \<Rightarrow> error + uint32" where
  "checked_add32 a b = (if unat a + unat b < 2 ^ 32 then Inr (a + b) else Inl (Panic 17))"

definition checked_mul32 :: "uint32 \<Rightarrow> uint32 \<Rightarrow> error + uint32" where
  "checked_mul32 a b = (if unat a * unat b < 2 ^ 32 then Inr (a * b) else Inl (Panic 17))"

definition checked_div32 :: "uint32 \<Rightarrow> uint32 \<Rightarrow> error + uint32" where
  "checked_div32 a b = (if b = 0 then Inl (Panic 18) else Inr (a div b))"

section \<open>Construction\<close>

definition zeroProgress :: StudentProgress where
  "zeroProgress = \<lparr> lessonCompleted = (\<lambda>_ _. False), moduleProgress = (\<lambda>_. 0),
     totalProgress = 0, completedLessons = 0, learningStreak = 0, lastActiveDay = 0,
     isEnrolled = False \<rparr>"

definition zeroModule :: LearningModule where
  "zeroModule = \<lparr> name = [], totalLessons = 0, isActive = False \<rparr>"

definition zeroStorage :: contract where
  "zeroStorage = \<lparr> studentProgress = (\<lambda>_. zeroProgress), learningModules = (\<lambda>_. zeroModule),
     owner = 0, moduleCount = 0, events = [] \<rparr>"

definition initializeModules :: "contract \<Rightarrow> contract" where
  "initializeModules s =
     s\<lparr> learningModules := (learningModules s)
          (0 := \<lparr> name = ''Cryptography Basics'', totalLessons = LESSONS_PER_MODULE, isActive = True \<rparr>,
           1 := \<lparr> name = ''Blockchain Fundamentals'', totalLessons = LESSONS_PER_MODULE, isActive = True \<rparr>,
           2 := \<lparr> name = ''Privacy Technologies'', totalLessons = LESSONS_PER_MODULE, isActive = True \<rparr>,
           3 := \<lparr> name = ''Advanced Applications'', totalLessons = LESSONS_PER_MODULE, isActive = True \<rparr>),
        moduleCount := 4 \<rparr>"

definition constructor :: "address \<Rightarrow> contract" where
  "constructor sender = initializeModules (zeroStorage\<lparr> owner := sender \<rparr>)"

section \<open>Loops\<close>

text \<open>
  Every loop of the contract is \<open>for (uint8 i = 0; i < n; i++)\<close> with \<open>n\<close> a \<open>uint8\<close>:
  inside the body \<open>i < n \<le> 255\<close>, so the checked \<open>i++\<close> cannot overflow. The
  defining equations are recursive and unconditional, so they are unfolded by hand.
\<close>

text \<open>The loop of \<open>enrollStudent\<close>: \<open>moduleProgress[i] = 0\<close> for every \<open>i < moduleCount\<close>.\<close>

function resetProgress :: "uint8 \<Rightarrow> uint8 \<Rightarrow> (uint8 \<Rightarrow> uint32) \<Rightarrow> (uint8 \<Rightarrow> uint32)" where
  "resetProgress i n mp = (if i < n then resetProgress (i + 1) n (mp(i := 0)) else mp)"
  by pat_completeness auto
termination
  by (relation "measure (\<lambda>(i, n, mp). unat n - unat i)") (simp, unat_arith+)

declare resetProgress.simps [simp del]

text \<open>
  The counting loop over the lessons of one module, used twice in \<open>_updateProgress\<close>:
  \<open>if (lessonCompleted[m][j]) acc += 1\<close> for every \<open>j < n\<close>.
\<close>

function countLessons :: "(uint8 \<Rightarrow> bool) \<Rightarrow> uint8 \<Rightarrow> uint8 \<Rightarrow> uint32 \<Rightarrow> error + uint32" where
  "countLessons row j n acc =
     (if j < n then
        (if row j then
           (case checked_add32 acc 1 of
              Inl e \<Rightarrow> Inl e
            | Inr acc' \<Rightarrow> countLessons row (j + 1) n acc')
         else countLessons row (j + 1) n acc)
      else Inr acc)"
  by pat_completeness auto
termination
  by (relation "measure (\<lambda>(row, j, n, acc). unat n - unat j)") (simp, unat_arith+)

declare countLessons.simps [simp del]

text \<open>\<open>totalModuleProgress += moduleProgress[i]\<close> for every \<open>i < moduleCount\<close>.\<close>

function sumProgress :: "(uint8 \<Rightarrow> uint32) \<Rightarrow> uint8 \<Rightarrow> uint8 \<Rightarrow> uint32 \<Rightarrow> error + uint32" where
  "sumProgress mp i n acc =
     (if i < n then
        (case checked_add32 acc (mp i) of
           Inl e \<Rightarrow> Inl e
         | Inr acc' \<Rightarrow> sumProgress mp (i + 1) n acc')
      else Inr acc)"
  by pat_completeness auto
termination
  by (relation "measure (\<lambda>(mp, i, n, acc). unat n - unat i)") (simp, unat_arith+)

declare sumProgress.simps [simp del]

text \<open>The nested loop that counts the completed lessons of all modules.\<close>

function countAll :: "(uint8 \<Rightarrow> uint8 \<Rightarrow> bool) \<Rightarrow> uint8 \<Rightarrow> uint8 \<Rightarrow> uint32 \<Rightarrow> error + uint32" where
  "countAll lc i n acc =
     (if i < n then
        (case countLessons (lc i) 0 LESSONS_PER_MODULE acc of
           Inl e \<Rightarrow> Inl e
         | Inr acc' \<Rightarrow> countAll lc (i + 1) n acc')
      else Inr acc)"
  by pat_completeness auto
termination
  by (relation "measure (\<lambda>(lc, i, n, acc). unat n - unat i)") (simp, unat_arith+)

declare countAll.simps [simp del]

section \<open>Student operations\<close>

text \<open>
  Every external function takes the storage, \<open>msg.sender\<close> and, where it reads the
  clock, \<open>block.timestamp\<close>; it returns the error of the aborted call or the new storage.
\<close>

definition enrollStudent :: "contract \<Rightarrow> address \<Rightarrow> uint256 \<Rightarrow> error + contract" where
  "enrollStudent s sender timestamp =
     (if isEnrolled (studentProgress s sender) then Inl (Revert ''Already enrolled'')
      else
        let p = studentProgress s sender;
            p' = p\<lparr> isEnrolled := True, totalProgress := 0, completedLessons := 0,
                   learningStreak := 0, lastActiveDay := timestamp div 86400,
                   moduleProgress := resetProgress 0 (moduleCount s) (moduleProgress p) \<rparr>
        in Inr (s\<lparr> studentProgress := (studentProgress s)(sender := p'),
                   events := events s @ [StudentEnrolled sender] \<rparr>))"

text \<open>
  The streak block of \<open>completeLesson\<close> (source lines 84 to 94). Inside the guard
  \<open>lastActiveDay < currentDay\<close>, so the checked \<open>lastActiveDay + 1\<close> cannot overflow;
  the checked \<open>learningStreak += 1\<close> can.
\<close>

definition updateStreak :: "StudentProgress \<Rightarrow> uint256 \<Rightarrow> bool \<Rightarrow> error + StudentProgress" where
  "updateStreak p currentDay completed =
     (if currentDay > lastActiveDay p \<and> completed then
        (if currentDay = lastActiveDay p + 1 then
           (case checked_add32 (learningStreak p) 1 of
              Inl e \<Rightarrow> Inl e
            | Inr k \<Rightarrow> Inr (p\<lparr> learningStreak := k, lastActiveDay := currentDay \<rparr>))
         else Inr (p\<lparr> learningStreak := 1, lastActiveDay := currentDay \<rparr>))
      else Inr p)"

text \<open>\<open>_updateProgress\<close> of the source (an identifier cannot start with an underscore here).\<close>

definition updateProgress :: "contract \<Rightarrow> address \<Rightarrow> uint8 \<Rightarrow> error + contract" where
  "updateProgress s sender moduleId =
     (let p = studentProgress s sender in
      case countLessons (lessonCompleted p moduleId) 0 LESSONS_PER_MODULE 0 of
        Inl e \<Rightarrow> Inl e
      | Inr completedInModule \<Rightarrow>
      (case checked_mul32 completedInModule 25 of
        Inl e \<Rightarrow> Inl e
      | Inr moduleProgressPercent \<Rightarrow>
      (let mp = (moduleProgress p)(moduleId := moduleProgressPercent) in
       case sumProgress mp 0 (moduleCount s) 0 of
        Inl e \<Rightarrow> Inl e
      | Inr totalModuleProgress \<Rightarrow>
      (case checked_div32 totalModuleProgress (ucast (moduleCount s)) of
        Inl e \<Rightarrow> Inl e
      | Inr average \<Rightarrow>
      (case countAll (lessonCompleted p) 0 (moduleCount s) 0 of
        Inl e \<Rightarrow> Inl e
      | Inr totalCompleted \<Rightarrow>
        Inr (s\<lparr> studentProgress := (studentProgress s)
                   (sender := p\<lparr> moduleProgress := mp, totalProgress := average,
                                 completedLessons := totalCompleted \<rparr>),
                 events := events s
                   @ (if moduleProgressPercent = 100 then [ModuleCompleted sender moduleId] else [])
                   @ [ProgressUpdated sender] \<rparr>))))))"

definition completeLesson ::
  "contract \<Rightarrow> address \<Rightarrow> uint256 \<Rightarrow> uint8 \<Rightarrow> uint8 \<Rightarrow> bool \<Rightarrow> error + contract" where
  "completeLesson s sender timestamp moduleId lessonId completed =
     (if \<not> isEnrolled (studentProgress s sender) then Inl (Revert ''Student not enrolled'')
      else if \<not> moduleId < moduleCount s then Inl (Revert ''Invalid module ID'')
      else if \<not> lessonId < LESSONS_PER_MODULE then Inl (Revert ''Invalid lesson ID'')
      else if \<not> isActive (learningModules s moduleId) then Inl (Revert ''Module not active'')
      else
        let p = studentProgress s sender;
            p1 = p\<lparr> lessonCompleted := (lessonCompleted p)
                     (moduleId := (lessonCompleted p moduleId)(lessonId := completed)) \<rparr>;
            currentDay = timestamp div 86400
        in case updateStreak p1 currentDay completed of
             Inl e \<Rightarrow> Inl e
           | Inr p2 \<Rightarrow>
               updateProgress
                 (s\<lparr> studentProgress := (studentProgress s)(sender := p2),
                     events := events s @ [LessonCompleted sender moduleId lessonId] \<rparr>)
                 sender moduleId)"

section \<open>Owner operations\<close>

definition addModule :: "contract \<Rightarrow> address \<Rightarrow> string \<Rightarrow> uint8 \<Rightarrow> error + contract" where
  "addModule s sender nm lessons =
     (if sender \<noteq> owner s then Inl (Revert ''Only owner can call this function'')
      else if \<not> moduleCount s < 255 then Inl (Revert ''Maximum modules reached'')
      else Inr (s\<lparr> learningModules := (learningModules s)
                    (moduleCount s := \<lparr> name = nm, totalLessons = lessons, isActive = True \<rparr>),
                  moduleCount := moduleCount s + 1 \<rparr>))"

definition toggleModule :: "contract \<Rightarrow> address \<Rightarrow> uint8 \<Rightarrow> error + contract" where
  "toggleModule s sender moduleId =
     (if sender \<noteq> owner s then Inl (Revert ''Only owner can call this function'')
      else if \<not> moduleId < moduleCount s then Inl (Revert ''Invalid module ID'')
      else Inr (s\<lparr> learningModules := (learningModules s)
                    (moduleId := (learningModules s moduleId)
                       \<lparr> isActive := \<not> isActive (learningModules s moduleId) \<rparr>) \<rparr>))"

section \<open>Transactions\<close>

text \<open>
  A transaction is a call of one external function. An aborted call reverts: the storage
  and the log stay as they were before it. The view functions change nothing, and
  \<open>emergencyWithdraw\<close> only moves the balance of the contract, which is no part of the
  storage modelled here; neither is a transaction of the model.
\<close>

datatype call =
    EnrollStudent
  | CompleteLesson uint8 uint8 bool
  | AddModule string uint8
  | ToggleModule uint8

fun exec :: "contract \<Rightarrow> address \<Rightarrow> uint256 \<Rightarrow> call \<Rightarrow> error + contract" where
  "exec s sender timestamp EnrollStudent = enrollStudent s sender timestamp"
| "exec s sender timestamp (CompleteLesson m l c) = completeLesson s sender timestamp m l c"
| "exec s sender timestamp (AddModule nm k) = addModule s sender nm k"
| "exec s sender timestamp (ToggleModule m) = toggleModule s sender m"

definition transact :: "contract \<Rightarrow> address \<Rightarrow> uint256 \<Rightarrow> call \<Rightarrow> contract" where
  "transact s sender timestamp c =
     (case exec s sender timestamp c of Inl e \<Rightarrow> s | Inr s' \<Rightarrow> s')"

text \<open>A run of transactions, each with its sender and its block timestamp.\<close>

fun run :: "contract \<Rightarrow> (address \<times> uint256 \<times> call) list \<Rightarrow> contract" where
  "run s [] = s"
| "run s ((sender, timestamp, c) # txs) = run (transact s sender timestamp c) txs"

text \<open>The states the contract can be in: deployed by someone, then any transactions.\<close>

inductive reachable :: "contract \<Rightarrow> bool" where
  deployed: "reachable (constructor deployer)"
| step: "reachable s \<Longrightarrow> exec s sender timestamp c = Inr s' \<Longrightarrow> reachable s'"

section \<open>What the loops compute\<close>

text \<open>
  The mathematical counts and sums the loops are compared with: the number of completed
  lessons among the \<open>LESSONS_PER_MODULE\<close> lessons of one module, the sum of the stored
  module percentages and the number of completed lessons over a range of module ids.
\<close>

definition completedCount :: "(uint8 \<Rightarrow> bool) \<Rightarrow> nat" where
  "completedCount row = length (filter (\<lambda>k. row (of_nat k)) [0..<unat LESSONS_PER_MODULE])"

definition progressSum :: "(uint8 \<Rightarrow> uint32) \<Rightarrow> nat \<Rightarrow> nat \<Rightarrow> nat" where
  "progressSum mp i n = sum_list (map (\<lambda>k. unat (mp (of_nat k))) [i..<n])"

definition completedSum :: "(uint8 \<Rightarrow> uint8 \<Rightarrow> bool) \<Rightarrow> nat \<Rightarrow> nat \<Rightarrow> nat" where
  "completedSum lc i n = sum_list (map (\<lambda>k. completedCount (lc (of_nat k))) [i..<n])"

text \<open>The percentage \<open>_updateProgress\<close> stores for a module: 25 per completed lesson.\<close>

definition percentOf :: "(uint8 \<Rightarrow> bool) \<Rightarrow> uint32" where
  "percentOf row = of_nat (completedCount row) * 25"

definition progressAfter :: "contract \<Rightarrow> address \<Rightarrow> uint8 \<Rightarrow> uint8 \<Rightarrow> uint32" where
  "progressAfter s sender moduleId =
     (moduleProgress (studentProgress s sender))
       (moduleId := percentOf (lessonCompleted (studentProgress s sender) moduleId))"

text \<open>
  The invariant of the reachable states: there is at least one module, every stored
  module percentage is the one computed from the stored completion flags, an account
  that never enrolled has no completion flag set, and a completion flag is only ever set
  for a module of the catalog and one of its \<open>LESSONS_PER_MODULE\<close> lessons.
\<close>

definition consistent :: "contract \<Rightarrow> bool" where
  "consistent s \<longleftrightarrow>
     moduleCount s \<noteq> 0
     \<and> (\<forall>a m. moduleProgress (studentProgress s a) m = percentOf (lessonCompleted (studentProgress s a) m))
     \<and> (\<forall>a. \<not> isEnrolled (studentProgress s a) \<longrightarrow> lessonCompleted (studentProgress s a) = (\<lambda>_ _. False))
     \<and> (\<forall>a m l. lessonCompleted (studentProgress s a) m l \<longrightarrow> m < moduleCount s \<and> l < LESSONS_PER_MODULE)"

section \<open>The streak update of the specification\<close>

text \<open>
  The streak update in the specification's words: a completion on the day after
  \<open>lastActiveDay\<close> adds one to the streak, a completion after a gap sets it to 1, both
  move \<open>lastActiveDay\<close> to today, and anything else (the same day, an earlier day, or
  \<open>completed = false\<close>) changes neither.
\<close>

definition spec_streak_update :: "StudentProgress \<Rightarrow> uint256 \<Rightarrow> bool \<Rightarrow> StudentProgress \<Rightarrow> bool" where
  "spec_streak_update p today completed p' \<longleftrightarrow>
     (if completed \<and> unat today = unat (lastActiveDay p) + 1
        then unat (learningStreak p') = unat (learningStreak p) + 1 \<and> lastActiveDay p' = today
      else if completed \<and> unat today > unat (lastActiveDay p) + 1
        then learningStreak p' = 1 \<and> lastActiveDay p' = today
      else learningStreak p' = learningStreak p \<and> lastActiveDay p' = lastActiveDay p)"

section \<open>Example states\<close>

text \<open>
  The contract is deployed by account 1. Account 2 enrolls on day 9 and completes the
  four lessons of module 0 on the days 10, 11, 15 and 15.
\<close>

definition day9 :: contract where
  "day9 = transact (constructor 1) 2 777600 EnrollStudent"

definition day10 :: contract where
  "day10 = transact day9 2 864000 (CompleteLesson 0 0 True)"

definition day11 :: contract where
  "day11 = transact day10 2 950400 (CompleteLesson 0 1 True)"

definition day15 :: contract where
  "day15 = transact day11 2 1296000 (CompleteLesson 0 2 True)"

definition day15b :: contract where
  "day15b = transact day15 2 1300000 (CompleteLesson 0 3 True)"

text \<open>The owner switches module 1 off after account 2 has enrolled.\<close>

definition inactiveModule :: contract where
  "inactiveModule = transact day9 1 777600 (ToggleModule 1)"

text \<open>
  The owner adds a fifth module (id 4) with a lesson count other than 4 and account 2
  enrolls: once with a module of 3 lessons, where the account then completes lesson 0,
  or the lessons 0 and 1 and then lesson 2, or the lessons 0 to 3, and once with a module
  of 10 lessons.
\<close>

definition shortModule :: contract where
  "shortModule = transact (transact (constructor 1) 1 0 (AddModule ''Short'' 3)) 2 0 EnrollStudent"

definition shortFirst :: contract where
  "shortFirst = transact shortModule 2 0 (CompleteLesson 4 0 True)"

definition shortTwo :: contract where
  "shortTwo = run shortModule [(2, 0, CompleteLesson 4 0 True), (2, 0, CompleteLesson 4 1 True)]"

definition shortThree :: contract where
  "shortThree = transact shortTwo 2 0 (CompleteLesson 4 2 True)"

definition shortDone :: contract where
  "shortDone = run shortModule [(2, 0, CompleteLesson 4 0 True), (2, 0, CompleteLesson 4 1 True),
     (2, 0, CompleteLesson 4 2 True), (2, 0, CompleteLesson 4 3 True)]"

definition longModule :: contract where
  "longModule = transact (transact (constructor 1) 1 0 (AddModule ''Long'' 10)) 2 0 EnrollStudent"

text \<open>A catalog that has reached the 255 modules the contract allows.\<close>

definition fullCatalog :: contract where
  "fullCatalog = (constructor 1)\<lparr> moduleCount := 255 \<rparr>"

section \<open>The loops meet their specifications\<close>

lemma countLessons_eq:
  "unat acc + (unat n - unat j) < 2 ^ 32 \<Longrightarrow>
   countLessons row j n acc =
     Inr (acc + of_nat (length (filter (\<lambda>k. row (of_nat k)) [unat j..<unat n])))"
proof (induction row j n acc rule: countLessons.induct)
  case (1 row j n acc)
  show ?case
  proof (cases "j < n")
    case False
    then have "unat n \<le> unat j" by (simp add: word_less_nat_alt)
    with False show ?thesis by (subst countLessons.simps) simp
  next
    case True
    then have lt: "unat j < unat n" by (simp add: word_less_nat_alt)
    have suc: "unat (j + 1) = Suc (unat j)" using True by unat_arith
    have upt: "[unat j..<unat n] = unat j # [unat (j + 1)..<unat n]"
      using lt by (simp add: upt_conv_Cons suc)
    show ?thesis
    proof (cases "row j")
      case False
      have "unat acc + (unat n - unat (j + 1)) < 2 ^ 32" using "1.prems" suc lt by simp
      from "1.IH"(2)[OF True False this] True False show ?thesis
        by (subst countLessons.simps) (simp add: upt)
    next
      case rj: True
      have b: "unat acc + unat (1::uint32) < 2 ^ 32" using "1.prems" lt by simp
      then have ca: "checked_add32 acc 1 = Inr (acc + 1)" by (simp add: checked_add32_def)
      have u: "unat (acc + 1) = unat acc + 1" using b by (simp add: unat_add_lem[THEN iffD1])
      have "unat (acc + 1) + (unat n - unat (j + 1)) < 2 ^ 32" using "1.prems" suc lt u by simp
      from "1.IH"(1)[OF True rj ca this] True rj ca show ?thesis
        by (subst countLessons.simps) (simp add: upt)
    qed
  qed
qed

lemma completedCount_le: "completedCount row \<le> 4"
proof -
  have "completedCount row \<le> length [0..<unat LESSONS_PER_MODULE]"
    unfolding completedCount_def by (rule length_filter_le)
  then show ?thesis by (simp add: LESSONS_PER_MODULE_def)
qed

lemma countLessons_row:
  "unat acc + 4 < 2 ^ 32 \<Longrightarrow>
   countLessons row 0 LESSONS_PER_MODULE acc = Inr (acc + of_nat (completedCount row))"
  using countLessons_eq[of acc LESSONS_PER_MODULE 0 row]
  by (simp add: completedCount_def LESSONS_PER_MODULE_def)

lemma progressSum_step: "i < n \<Longrightarrow> progressSum mp i n = unat (mp (of_nat i)) + progressSum mp (Suc i) n"
  by (simp add: progressSum_def upt_conv_Cons)

lemma completedSum_step:
  "i < n \<Longrightarrow> completedSum lc i n = completedCount (lc (of_nat i)) + completedSum lc (Suc i) n"
  by (simp add: completedSum_def upt_conv_Cons)

lemma completedSum_le: "completedSum lc i n \<le> 4 * (n - i)"
proof -
  have "sum_list (map (\<lambda>k. completedCount (lc (of_nat k))) xs) \<le> 4 * length xs" for xs :: "nat list"
  proof (induction xs)
    case Nil then show ?case by simp
  next
    case (Cons x xs)
    with completedCount_le[of "lc (of_nat x)"] show ?case by simp
  qed
  from this[of "[i..<n]"] show ?thesis by (simp add: completedSum_def)
qed

lemma sumProgress_eq:
  "unat acc + progressSum mp (unat i) (unat n) < 2 ^ 32 \<Longrightarrow>
   sumProgress mp i n acc = Inr (acc + of_nat (progressSum mp (unat i) (unat n)))"
proof (induction mp i n acc rule: sumProgress.induct)
  case (1 mp i n acc)
  show ?case
  proof (cases "i < n")
    case False
    then have "unat n \<le> unat i" by (simp add: word_less_nat_alt)
    with False show ?thesis by (subst sumProgress.simps) (simp add: progressSum_def)
  next
    case True
    then have lt: "unat i < unat n" by (simp add: word_less_nat_alt)
    have suc: "unat (i + 1) = Suc (unat i)" using True by unat_arith
    have st: "progressSum mp (unat i) (unat n) = unat (mp i) + progressSum mp (unat (i + 1)) (unat n)"
      using progressSum_step[OF lt, of mp] by (simp add: suc)
    have b: "unat acc + unat (mp i) < 2 ^ 32" using "1.prems" st by simp
    then have ca: "checked_add32 acc (mp i) = Inr (acc + mp i)" by (simp add: checked_add32_def)
    have u: "unat (acc + mp i) = unat acc + unat (mp i)" using b by (simp add: unat_add_lem[THEN iffD1])
    have "unat (acc + mp i) + progressSum mp (unat (i + 1)) (unat n) < 2 ^ 32"
      using "1.prems" st u by simp
    from "1.IH"[OF True ca this] True ca show ?thesis
      by (subst sumProgress.simps) (simp add: st)
  qed
qed

lemma sumProgress_overflow:
  "\<not> unat acc + progressSum mp (unat i) (unat n) < 2 ^ 32 \<Longrightarrow>
   sumProgress mp i n acc = Inl (Panic 17)"
proof (induction mp i n acc rule: sumProgress.induct)
  case (1 mp i n acc)
  show ?case
  proof (cases "i < n")
    case False
    then have "unat n \<le> unat i" by (simp add: word_less_nat_alt)
    with "1.prems" have False using unsigned_less[of acc, where 'a = nat] by (simp add: progressSum_def)
    then show ?thesis ..
  next
    case True
    then have lt: "unat i < unat n" by (simp add: word_less_nat_alt)
    have suc: "unat (i + 1) = Suc (unat i)" using True by unat_arith
    have st: "progressSum mp (unat i) (unat n) = unat (mp i) + progressSum mp (unat (i + 1)) (unat n)"
      using progressSum_step[OF lt, of mp] by (simp add: suc)
    show ?thesis
    proof (cases "unat acc + unat (mp i) < 2 ^ 32")
      case False
      then show ?thesis using True by (subst sumProgress.simps) (simp add: checked_add32_def)
    next
      case b: True
      then have ca: "checked_add32 acc (mp i) = Inr (acc + mp i)" by (simp add: checked_add32_def)
      have u: "unat (acc + mp i) = unat acc + unat (mp i)" using b by (simp add: unat_add_lem[THEN iffD1])
      have "\<not> unat (acc + mp i) + progressSum mp (unat (i + 1)) (unat n) < 2 ^ 32"
        using "1.prems" st u by simp
      from "1.IH"[OF True ca this] True ca show ?thesis
        by (subst sumProgress.simps) simp
    qed
  qed
qed

lemma countAll_eq:
  "unat acc + 4 * (unat n - unat i) < 2 ^ 32 \<Longrightarrow>
   countAll lc i n acc = Inr (acc + of_nat (completedSum lc (unat i) (unat n)))"
proof (induction lc i n acc rule: countAll.induct)
  case (1 lc i n acc)
  show ?case
  proof (cases "i < n")
    case False
    then have "unat n \<le> unat i" by (simp add: word_less_nat_alt)
    with False show ?thesis by (subst countAll.simps) (simp add: completedSum_def)
  next
    case True
    then have lt: "unat i < unat n" by (simp add: word_less_nat_alt)
    have suc: "unat (i + 1) = Suc (unat i)" using True by unat_arith
    have st: "completedSum lc (unat i) (unat n) = completedCount (lc i) + completedSum lc (unat (i + 1)) (unat n)"
      using completedSum_step[OF lt, of lc] by (simp add: suc)
    have b: "unat acc + 4 < 2 ^ 32" using "1.prems" lt by simp
    let ?acc' = "acc + of_nat (completedCount (lc i))"
    have ca: "countLessons (lc i) 0 LESSONS_PER_MODULE acc = Inr ?acc'"
      using countLessons_row[OF b] .
    have u: "unat ?acc' = unat acc + completedCount (lc i)"
      using b completedCount_le[of "lc i"] by (simp add: unat_word_ariths unat_of_nat)
    have "unat ?acc' + 4 * (unat n - unat (i + 1)) < 2 ^ 32"
      using "1.prems" lt suc u completedCount_le[of "lc i"] by simp
    from "1.IH"[OF True ca this] True ca show ?thesis
      by (subst countAll.simps) (simp add: st)
  qed
qed

lemma resetProgress_apply:
  "resetProgress i n mp k = (if i \<le> k \<and> k < n then 0 else mp k)"
proof (induction i n mp rule: resetProgress.induct)
  case (1 i n mp)
  show ?case
  proof (cases "i < n")
    case False
    then have nk: "\<not> (i \<le> k \<and> k < n)" by (simp add: word_less_nat_alt word_le_nat_alt)
    show ?thesis by (subst resetProgress.simps) (simp add: nk False)
  next
    case True
    have suc: "unat (i + 1) = Suc (unat i)" using True by unat_arith
    have a: "i + 1 \<le> k \<longleftrightarrow> i < k"
      by (simp add: word_le_nat_alt word_less_nat_alt suc Suc_le_eq)
    have b: "i \<le> k \<longleftrightarrow> i = k \<or> i < k" by auto
    have "resetProgress i n mp k = resetProgress (i + 1) n (mp(i := 0)) k"
      using True by (subst resetProgress.simps) simp
    also have "\<dots> = (if i + 1 \<le> k \<and> k < n then 0 else (mp(i := 0)) k)"
      using "1.IH"[OF True] .
    also have "\<dots> = (if i \<le> k \<and> k < n then 0 else mp k)"
      using True by (cases "i = k") (simp_all add: a b)
    finally show ?thesis .
  qed
qed

lemma unat_of_nat32: "n < 2 ^ 32 \<Longrightarrow> unat (of_nat n :: uint32) = n"
  by (simp add: unat_of_nat)

lemma unat_percentOf: "unat (percentOf row) = completedCount row * 25"
proof -
  have c: "completedCount row \<le> 4" by (rule completedCount_le)
  then have "unat (of_nat (completedCount row) :: uint32) = completedCount row"
    by (simp add: unat_of_nat32)
  moreover have "completedCount row * 25 < 2 ^ 32" using c by simp
  ultimately show ?thesis
    by (simp add: percentOf_def unat_word_ariths)
qed

lemma countLessons_zero:
  "countLessons row 0 LESSONS_PER_MODULE 0 = Inr (of_nat (completedCount row))"
  using countLessons_row[of 0 row] by simp

lemma checked_mul32_percent:
  "checked_mul32 (of_nat (completedCount row)) 25 = Inr (percentOf row)"
proof -
  have c: "completedCount row \<le> 4" by (rule completedCount_le)
  then have "unat (of_nat (completedCount row) :: uint32) = completedCount row"
    by (simp add: unat_of_nat32)
  with c show ?thesis by (simp add: checked_mul32_def percentOf_def)
qed

lemma countAll_zero:
  "countAll lc 0 n 0 = Inr (of_nat (completedSum lc 0 (unat n)))"
proof -
  have "unat n < 2 ^ 8" using unsigned_less[of n, where 'a = nat] by simp
  then have "unat (0::uint32) + 4 * (unat n - unat (0::uint8)) < 2 ^ 32" by simp
  from countAll_eq[OF this, of lc] show ?thesis by simp
qed

lemma sumProgress_zero:
  "sumProgress mp 0 n 0 =
     (if progressSum mp 0 (unat n) < 2 ^ 32 then Inr (of_nat (progressSum mp 0 (unat n)))
      else Inl (Panic 17))"
  using sumProgress_eq[of 0 mp 0 n] sumProgress_overflow[of 0 mp 0 n] by simp

lemma unat_ucast_8_32: "unat (ucast w :: uint32) = unat w" for w :: uint8
proof -
  have "unat w < 2 ^ 8" using unsigned_less[of w, where 'a = nat] by simp
  then have "unat w < 2 ^ 32" by simp
  then show ?thesis by (simp add: unsigned_ucast_eq take_bit_nat_eq_self)
qed

lemma updateProgress_eq:
  "updateProgress s sender m =
     (if \<not> progressSum (progressAfter s sender m) 0 (unat (moduleCount s)) < 2 ^ 32
        then Inl (Panic 17)
      else if moduleCount s = 0 then Inl (Panic 18)
      else Inr (s\<lparr> studentProgress := (studentProgress s)
                   (sender := (studentProgress s sender)
                      \<lparr> moduleProgress := progressAfter s sender m,
                        totalProgress := of_nat (progressSum (progressAfter s sender m) 0 (unat (moduleCount s)))
                                          div ucast (moduleCount s),
                        completedLessons := of_nat (completedSum (lessonCompleted (studentProgress s sender)) 0
                                                      (unat (moduleCount s))) \<rparr>),
                 events := events s
                   @ (if percentOf (lessonCompleted (studentProgress s sender) m) = 100
                      then [ModuleCompleted sender m] else [])
                   @ [ProgressUpdated sender] \<rparr>))"
proof -
  let ?mp = "progressAfter s sender m"
  let ?n = "unat (moduleCount s)"
  have z: "(ucast (moduleCount s) :: uint32) = 0 \<longleftrightarrow> moduleCount s = 0"
    by (simp add: word_eq_iff_unsigned[where ?'a = nat] unat_ucast_8_32)
  have mp: "(moduleProgress (studentProgress s sender))
       (m := percentOf (lessonCompleted (studentProgress s sender) m)) = ?mp"
    by (simp only: progressAfter_def)
  show ?thesis
  proof (cases "progressSum ?mp 0 ?n < 2 ^ 32")
    case False
    then have sp: "sumProgress ?mp 0 (moduleCount s) 0 = Inl (Panic 17)"
      by (simp only: sumProgress_zero if_False)
    have c1: "(progressSum ?mp 0 ?n < 2 ^ 32) = False" using False by simp
    show ?thesis
      by (simp only: updateProgress_def Let_def countLessons_zero checked_mul32_percent mp sp c1
          sum.case if_True if_False not_False_eq_True not_True_eq_False)
  next
    case True
    then have sp: "sumProgress ?mp 0 (moduleCount s) 0 = Inr (of_nat (progressSum ?mp 0 ?n))"
      by (simp only: sumProgress_zero if_True)
    show ?thesis
    proof (cases "moduleCount s = 0")
      case z0: True
      then have dv: "checked_div32 (of_nat (progressSum ?mp 0 ?n)) (ucast (moduleCount s)) = Inl (Panic 18)"
        using z by (simp add: checked_div32_def)
      have c0: "(moduleCount s = 0) = True" using z0 by simp
      have c1: "(progressSum ?mp 0 ?n < 2 ^ 32) = True" using True by simp
      show ?thesis
        by (simp only: updateProgress_def Let_def countLessons_zero checked_mul32_percent mp sp dv c0 c1
            sum.case if_True if_False not_False_eq_True not_True_eq_False)
    next
      case nz: False
      then have dv: "checked_div32 (of_nat (progressSum ?mp 0 ?n)) (ucast (moduleCount s))
          = Inr (of_nat (progressSum ?mp 0 ?n) div ucast (moduleCount s))"
        using z by (simp add: checked_div32_def)
      have c0: "(moduleCount s = 0) = False" using nz by simp
      have c1: "(progressSum ?mp 0 ?n < 2 ^ 32) = True" using True by simp
      show ?thesis
        by (simp only: updateProgress_def Let_def countLessons_zero checked_mul32_percent mp sp dv c0 c1
            countAll_zero sum.case if_True if_False not_False_eq_True not_True_eq_False)
    qed
  qed
qed

lemma updateStreak_cases:
  assumes "updateStreak p d c = Inr p2"
  shows "lessonCompleted p2 = lessonCompleted p"
    and "moduleProgress p2 = moduleProgress p"
    and "totalProgress p2 = totalProgress p"
    and "completedLessons p2 = completedLessons p"
    and "isEnrolled p2 = isEnrolled p"
  using assms
  by (auto simp: updateStreak_def checked_add32_def split: if_splits)

lemma updateStreak_streak:
  assumes "updateStreak p d c = Inr p2"
  shows "learningStreak p2 =
           (if d > lastActiveDay p \<and> c
            then (if d = lastActiveDay p + 1 then learningStreak p + 1 else 1)
            else learningStreak p)"
    and "lastActiveDay p2 = (if d > lastActiveDay p \<and> c then d else lastActiveDay p)"
  using assms
  by (auto simp: updateStreak_def checked_add32_def split: if_splits)

lemma updateStreak_ok:
  "(\<exists>p2. updateStreak p d c = Inr p2) \<longleftrightarrow>
     \<not> (c \<and> d = lastActiveDay p + 1 \<and> lastActiveDay p < d \<and> unat (learningStreak p) = 4294967295)"
proof -
  have "unat (learningStreak p) < 2 ^ 32"
    using unsigned_less[of "learningStreak p", where 'a = nat] by simp
  then have "unat (learningStreak p) + unat (1::uint32) < 2 ^ 32 \<longleftrightarrow> unat (learningStreak p) \<noteq> 4294967295"
    by auto
  then show ?thesis
    by (auto simp: updateStreak_def checked_add32_def split: if_splits)
qed

lemma completeLesson_success:
  assumes ok: "completeLesson s a ts m l c = Inr s'"
  obtains p2 where
    "isEnrolled (studentProgress s a)" "m < moduleCount s" "l < LESSONS_PER_MODULE"
    "isActive (learningModules s m)"
    "updateStreak ((studentProgress s a)\<lparr> lessonCompleted := (lessonCompleted (studentProgress s a))
         (m := (lessonCompleted (studentProgress s a) m)(l := c)) \<rparr>) (ts div 86400) c = Inr p2"
    "updateProgress (s\<lparr> studentProgress := (studentProgress s)(a := p2),
         events := events s @ [LessonCompleted a m l] \<rparr>) a m = Inr s'"
  using ok unfolding completeLesson_def Let_def
  by (auto split: if_splits sum.splits)

section \<open>Evaluation on concrete states\<close>

lemma upt4: "[0..<4] = [0, 1, 2, 3]"
  by (simp add: upt_conv_Cons)

lemma completedCount_eval:
  "completedCount row = (if row 0 then 1 else 0) + (if row 1 then 1 else 0)
      + (if row 2 then 1 else 0) + (if row 3 then 1 else 0)"
  by (simp add: completedCount_def LESSONS_PER_MODULE_def upt4)

lemma progressSum_rec:
  "progressSum mp i n = (if i < n then unat (mp (of_nat i)) + progressSum mp (i + 1) n else 0)"
proof (cases "i < n")
  case True
  from progressSum_step[OF True, of mp] True show ?thesis by simp
next
  case False
  then show ?thesis by (simp add: progressSum_def)
qed

lemma completedSum_rec:
  "completedSum lc i n = (if i < n then completedCount (lc (of_nat i)) + completedSum lc (i + 1) n else 0)"
proof (cases "i < n")
  case True
  from completedSum_step[OF True, of lc] True show ?thesis by simp
next
  case False
  then show ?thesis by (simp add: completedSum_def)
qed

lemma resetProgress_fun:
  "resetProgress 0 n mp = (\<lambda>k. if k < n then 0 else mp k)"
  by (rule ext) (simp add: resetProgress_apply)

lemmas eval_simps = transact_def constructor_def initializeModules_def zeroStorage_def zeroProgress_def
     addModule_def toggleModule_def enrollStudent_def completeLesson_def updateProgress_eq progressAfter_def percentOf_def
     completedCount_eval LESSONS_PER_MODULE_def updateStreak_def progressSum_rec completedSum_rec Let_def
     resetProgress_fun checked_add32_def

section \<open>What a successful completion leaves behind\<close>

lemma completeLesson_result:
  assumes ok: "completeLesson s a ts m l c = Inr s'"
  obtains p2 where
    "isEnrolled (studentProgress s a)" "m < moduleCount s" "l < LESSONS_PER_MODULE"
    "isActive (learningModules s m)"
    "updateStreak ((studentProgress s a)\<lparr> lessonCompleted := (lessonCompleted (studentProgress s a))
         (m := (lessonCompleted (studentProgress s a) m)(l := c)) \<rparr>) (ts div 86400) c = Inr p2"
    "lessonCompleted p2 = (lessonCompleted (studentProgress s a))
         (m := (lessonCompleted (studentProgress s a) m)(l := c))"
    "progressSum ((moduleProgress (studentProgress s a))(m := percentOf (lessonCompleted p2 m))) 0
        (unat (moduleCount s)) < 2 ^ 32"
    "s' = s\<lparr> studentProgress := (studentProgress s)
              (a := p2\<lparr> moduleProgress := (moduleProgress (studentProgress s a))
                                             (m := percentOf (lessonCompleted p2 m)),
                        totalProgress := of_nat (progressSum ((moduleProgress (studentProgress s a))
                                             (m := percentOf (lessonCompleted p2 m))) 0 (unat (moduleCount s)))
                                          div ucast (moduleCount s),
                        completedLessons := of_nat (completedSum (lessonCompleted p2) 0 (unat (moduleCount s))) \<rparr>),
            events := events s @ [LessonCompleted a m l]
                   @ (if percentOf (lessonCompleted p2 m) = 100 then [ModuleCompleted a m] else [])
                   @ [ProgressUpdated a] \<rparr>"
proof -
  from ok obtain p2 where
    pre: "isEnrolled (studentProgress s a)" "m < moduleCount s" "l < LESSONS_PER_MODULE"
      "isActive (learningModules s m)"
    and us: "updateStreak ((studentProgress s a)\<lparr> lessonCompleted := (lessonCompleted (studentProgress s a))
         (m := (lessonCompleted (studentProgress s a) m)(l := c)) \<rparr>) (ts div 86400) c = Inr p2"
    and up: "updateProgress (s\<lparr> studentProgress := (studentProgress s)(a := p2),
         events := events s @ [LessonCompleted a m l] \<rparr>) a m = Inr s'"
    by (rule completeLesson_success)
  have lc: "lessonCompleted p2 = (lessonCompleted (studentProgress s a))
         (m := (lessonCompleted (studentProgress s a) m)(l := c))"
    using updateStreak_cases(1)[OF us] by simp
  have mp: "moduleProgress p2 = moduleProgress (studentProgress s a)"
    using updateStreak_cases(2)[OF us] by simp
  let ?s1 = "s\<lparr> studentProgress := (studentProgress s)(a := p2),
         events := events s @ [LessonCompleted a m l] \<rparr>"
  have pa: "progressAfter ?s1 a m = (moduleProgress (studentProgress s a))(m := percentOf (lessonCompleted p2 m))"
    by (simp add: progressAfter_def mp)
  have nz: "moduleCount s \<noteq> 0" using pre(2) by auto
  from up have b: "progressSum (progressAfter ?s1 a m) 0 (unat (moduleCount s)) < 2 ^ 32"
    by (simp add: updateProgress_eq split: if_splits)
  from up b nz have s': "s' = ?s1\<lparr> studentProgress := (studentProgress ?s1)
                   (a := (studentProgress ?s1 a)
                      \<lparr> moduleProgress := progressAfter ?s1 a m,
                        totalProgress := of_nat (progressSum (progressAfter ?s1 a m) 0 (unat (moduleCount ?s1)))
                                          div ucast (moduleCount ?s1),
                        completedLessons := of_nat (completedSum (lessonCompleted (studentProgress ?s1 a)) 0
                                                      (unat (moduleCount ?s1))) \<rparr>),
                 events := events ?s1
                   @ (if percentOf (lessonCompleted (studentProgress ?s1 a) m) = 100
                      then [ModuleCompleted a m] else [])
                   @ [ProgressUpdated a] \<rparr>"
    by (simp add: updateProgress_eq)
  show thesis
  proof (rule that[OF pre us lc])
    show "progressSum ((moduleProgress (studentProgress s a))(m := percentOf (lessonCompleted p2 m))) 0
        (unat (moduleCount s)) < 2 ^ 32"
      using b by (simp only: pa)
    show "s' = s\<lparr> studentProgress := (studentProgress s)
              (a := p2\<lparr> moduleProgress := (moduleProgress (studentProgress s a))
                                             (m := percentOf (lessonCompleted p2 m)),
                        totalProgress := of_nat (progressSum ((moduleProgress (studentProgress s a))
                                             (m := percentOf (lessonCompleted p2 m))) 0 (unat (moduleCount s)))
                                          div ucast (moduleCount s),
                        completedLessons := of_nat (completedSum (lessonCompleted p2) 0 (unat (moduleCount s))) \<rparr>),
            events := events s @ [LessonCompleted a m l]
                   @ (if percentOf (lessonCompleted p2 m) = 100 then [ModuleCompleted a m] else [])
                   @ [ProgressUpdated a] \<rparr>"
      by (subst s') (simp add: pa)
  qed
qed

lemma completeLesson_fields:
  assumes ok: "completeLesson s a ts m l c = Inr s'"
  shows "lessonCompleted (studentProgress s' a) = (lessonCompleted (studentProgress s a))
           (m := (lessonCompleted (studentProgress s a) m)(l := c))"
    and "moduleProgress (studentProgress s' a) = (moduleProgress (studentProgress s a))
           (m := percentOf (lessonCompleted (studentProgress s' a) m))"
    and "totalProgress (studentProgress s' a) =
           of_nat (progressSum (moduleProgress (studentProgress s' a)) 0 (unat (moduleCount s')))
             div ucast (moduleCount s')"
    and "completedLessons (studentProgress s' a) =
           of_nat (completedSum (lessonCompleted (studentProgress s' a)) 0 (unat (moduleCount s')))"
    and "progressSum (moduleProgress (studentProgress s' a)) 0 (unat (moduleCount s')) < 2 ^ 32"
    and "isEnrolled (studentProgress s' a)"
    and "learningModules s' = learningModules s"
    and "owner s' = owner s"
    and "moduleCount s' = moduleCount s"
    and "events s' = events s @ [LessonCompleted a m l]
           @ (if moduleProgress (studentProgress s' a) m = 100 then [ModuleCompleted a m] else [])
           @ [ProgressUpdated a]"
proof -
  from ok obtain p2 where
    us: "updateStreak ((studentProgress s a)\<lparr> lessonCompleted := (lessonCompleted (studentProgress s a))
         (m := (lessonCompleted (studentProgress s a) m)(l := c)) \<rparr>) (ts div 86400) c = Inr p2"
    and lc: "lessonCompleted p2 = (lessonCompleted (studentProgress s a))
         (m := (lessonCompleted (studentProgress s a) m)(l := c))"
    and b: "progressSum ((moduleProgress (studentProgress s a))(m := percentOf (lessonCompleted p2 m))) 0
        (unat (moduleCount s)) < 2 ^ 32"
    and en: "isEnrolled (studentProgress s a)"
    and s': "s' = s\<lparr> studentProgress := (studentProgress s)
              (a := p2\<lparr> moduleProgress := (moduleProgress (studentProgress s a))
                                             (m := percentOf (lessonCompleted p2 m)),
                        totalProgress := of_nat (progressSum ((moduleProgress (studentProgress s a))
                                             (m := percentOf (lessonCompleted p2 m))) 0 (unat (moduleCount s)))
                                          div ucast (moduleCount s),
                        completedLessons := of_nat (completedSum (lessonCompleted p2) 0 (unat (moduleCount s))) \<rparr>),
            events := events s @ [LessonCompleted a m l]
                   @ (if percentOf (lessonCompleted p2 m) = 100 then [ModuleCompleted a m] else [])
                   @ [ProgressUpdated a] \<rparr>"
    by (rule completeLesson_result)
  have en2: "isEnrolled p2" using updateStreak_cases(5)[OF us] en by simp
  show "lessonCompleted (studentProgress s' a) = (lessonCompleted (studentProgress s a))
           (m := (lessonCompleted (studentProgress s a) m)(l := c))"
    by (simp add: s' lc)
  show "moduleProgress (studentProgress s' a) = (moduleProgress (studentProgress s a))
           (m := percentOf (lessonCompleted (studentProgress s' a) m))"
    by (simp add: s')
  show "totalProgress (studentProgress s' a) =
           of_nat (progressSum (moduleProgress (studentProgress s' a)) 0 (unat (moduleCount s')))
             div ucast (moduleCount s')"
    by (simp add: s')
  show "completedLessons (studentProgress s' a) =
           of_nat (completedSum (lessonCompleted (studentProgress s' a)) 0 (unat (moduleCount s')))"
    by (simp add: s')
  show "progressSum (moduleProgress (studentProgress s' a)) 0 (unat (moduleCount s')) < 2 ^ 32"
    using b by (simp add: s')
  show "isEnrolled (studentProgress s' a)" by (simp add: s' en2)
  show "learningModules s' = learningModules s" by (simp add: s')
  show "owner s' = owner s" by (simp add: s')
  show "moduleCount s' = moduleCount s" by (simp add: s')
  show "events s' = events s @ [LessonCompleted a m l]
           @ (if moduleProgress (studentProgress s' a) m = 100 then [ModuleCompleted a m] else [])
           @ [ProgressUpdated a]"
    by (simp add: s')
qed

lemma completeLesson_others:
  assumes ok: "completeLesson s a ts m l c = Inr s'" and "b \<noteq> a"
  shows "studentProgress s' b = studentProgress s b"
  using ok by (rule completeLesson_result) (simp add: assms(2))

lemma completeLesson_streak:
  assumes ok: "completeLesson s a ts m l c = Inr s'"
  shows "learningStreak (studentProgress s' a) =
           (if ts div 86400 > lastActiveDay (studentProgress s a) \<and> c
            then (if ts div 86400 = lastActiveDay (studentProgress s a) + 1
                  then learningStreak (studentProgress s a) + 1 else 1)
            else learningStreak (studentProgress s a))"
    and "lastActiveDay (studentProgress s' a) =
           (if ts div 86400 > lastActiveDay (studentProgress s a) \<and> c
            then ts div 86400 else lastActiveDay (studentProgress s a))"
    and "ts div 86400 > lastActiveDay (studentProgress s a) \<and> c
           \<and> ts div 86400 = lastActiveDay (studentProgress s a) + 1
         \<Longrightarrow> unat (learningStreak (studentProgress s a)) \<noteq> 4294967295"
proof -
  let ?p1 = "(studentProgress s a)\<lparr> lessonCompleted := (lessonCompleted (studentProgress s a))
         (m := (lessonCompleted (studentProgress s a) m)(l := c)) \<rparr>"
  from ok obtain p2 where
    us: "updateStreak ?p1 (ts div 86400) c = Inr p2"
    and s': "s' = s\<lparr> studentProgress := (studentProgress s)
              (a := p2\<lparr> moduleProgress := (moduleProgress (studentProgress s a))
                                             (m := percentOf (lessonCompleted p2 m)),
                        totalProgress := of_nat (progressSum ((moduleProgress (studentProgress s a))
                                             (m := percentOf (lessonCompleted p2 m))) 0 (unat (moduleCount s)))
                                          div ucast (moduleCount s),
                        completedLessons := of_nat (completedSum (lessonCompleted p2) 0 (unat (moduleCount s))) \<rparr>),
            events := events s @ [LessonCompleted a m l]
                   @ (if percentOf (lessonCompleted p2 m) = 100 then [ModuleCompleted a m] else [])
                   @ [ProgressUpdated a] \<rparr>"
    by (rule completeLesson_result)
  have pr: "learningStreak (studentProgress s' a) = learningStreak p2"
    "lastActiveDay (studentProgress s' a) = lastActiveDay p2"
    by (simp_all add: s')
  show "learningStreak (studentProgress s' a) =
           (if ts div 86400 > lastActiveDay (studentProgress s a) \<and> c
            then (if ts div 86400 = lastActiveDay (studentProgress s a) + 1
                  then learningStreak (studentProgress s a) + 1 else 1)
            else learningStreak (studentProgress s a))"
    using updateStreak_streak(1)[OF us] by (simp add: pr)
  show "lastActiveDay (studentProgress s' a) =
           (if ts div 86400 > lastActiveDay (studentProgress s a) \<and> c
            then ts div 86400 else lastActiveDay (studentProgress s a))"
    using updateStreak_streak(2)[OF us] by (simp add: pr)
  show "unat (learningStreak (studentProgress s a)) \<noteq> 4294967295"
    if "ts div 86400 > lastActiveDay (studentProgress s a) \<and> c
           \<and> ts div 86400 = lastActiveDay (studentProgress s a) + 1"
  proof -
    have "\<exists>p2. updateStreak ?p1 (ts div 86400) c = Inr p2" using us by blast
    then have n: "\<not> (c \<and> ts div 86400 = lastActiveDay ?p1 + 1 \<and> lastActiveDay ?p1 < ts div 86400
        \<and> unat (learningStreak ?p1) = 4294967295)"
      by (rule iffD1[OF updateStreak_ok])
    have f: "lastActiveDay ?p1 = lastActiveDay (studentProgress s a)"
      "learningStreak ?p1 = learningStreak (studentProgress s a)"
      by simp_all
    from n that show ?thesis unfolding f by blast
  qed
qed

section \<open>Invariants of the reachable states\<close>

lemma percentOf_values: "percentOf row \<in> {0, 25, 50, 75, 100}"
proof -
  have "completedCount row \<le> 4" by (rule completedCount_le)
  then have "completedCount row \<in> {0, 1, 2, 3, 4}" by auto
  then show ?thesis by (auto simp: percentOf_def)
qed

lemma percentOf_le: "unat (percentOf row) \<le> 100"
  using completedCount_le[of row] by (simp add: unat_percentOf)

lemma percentOf_none: "percentOf (\<lambda>_. False) = 0"
  by (simp add: percentOf_def completedCount_def)

lemma progressSum_le:
  assumes "\<forall>k. unat (mp k) \<le> 100"
  shows "progressSum mp i n \<le> 100 * (n - i)"
proof -
  have "sum_list (map (\<lambda>k. unat (mp (of_nat k))) xs) \<le> 100 * length xs" for xs :: "nat list"
  proof (induction xs)
    case Nil then show ?case by simp
  next
    case (Cons x xs)
    with assms[rule_format, of "of_nat x"] show ?case by simp
  qed
  from this[of "[i..<n]"] show ?thesis by (simp add: progressSum_def)
qed

lemma progressSum_bounded:
  assumes "\<forall>k. unat (mp k) \<le> 100"
  shows "progressSum mp 0 (unat (n :: uint8)) < 2 ^ 32"
proof -
  have "unat n < 2 ^ 8" using unsigned_less[of n, where 'a = nat] by simp
  moreover have "progressSum mp 0 (unat n) \<le> 100 * unat n" using progressSum_le[OF assms, of 0 "unat n"] by simp
  ultimately show ?thesis by simp
qed

lemma enrollStudent_result:
  assumes "enrollStudent s a t = Inr s'"
  shows "\<not> isEnrolled (studentProgress s a)"
    and "s' = s\<lparr> studentProgress := (studentProgress s)
              (a := (studentProgress s a)\<lparr> isEnrolled := True, totalProgress := 0, completedLessons := 0,
                   learningStreak := 0, lastActiveDay := t div 86400,
                   moduleProgress := resetProgress 0 (moduleCount s) (moduleProgress (studentProgress s a)) \<rparr>),
            events := events s @ [StudentEnrolled a] \<rparr>"
  using assms by (auto simp: enrollStudent_def Let_def split: if_splits)

lemma addModule_result:
  assumes "addModule s a nm k = Inr s'"
  shows "a = owner s" and "moduleCount s < 255"
    and "s' = s\<lparr> learningModules := (learningModules s)
                    (moduleCount s := \<lparr> name = nm, totalLessons = k, isActive = True \<rparr>),
                  moduleCount := moduleCount s + 1 \<rparr>"
  using assms by (auto simp: addModule_def split: if_splits)

lemma toggleModule_result:
  assumes "toggleModule s a m = Inr s'"
  shows "a = owner s" and "m < moduleCount s"
    and "s' = s\<lparr> learningModules := (learningModules s)
                    (m := (learningModules s m)\<lparr> isActive := \<not> isActive (learningModules s m) \<rparr>) \<rparr>"
  using assms by (auto simp: toggleModule_def split: if_splits)

lemma consistentI:
  assumes "moduleCount s \<noteq> 0"
    and "\<And>a m. moduleProgress (studentProgress s a) m = percentOf (lessonCompleted (studentProgress s a) m)"
    and "\<And>a. \<not> isEnrolled (studentProgress s a) \<Longrightarrow> lessonCompleted (studentProgress s a) = (\<lambda>_ _. False)"
    and "\<And>a m l. lessonCompleted (studentProgress s a) m l \<Longrightarrow> m < moduleCount s \<and> l < LESSONS_PER_MODULE"
  shows "consistent s"
  unfolding consistent_def using assms by blast

lemma consistentD:
  assumes "consistent s"
  shows "moduleCount s \<noteq> 0"
    and "moduleProgress (studentProgress s a) m = percentOf (lessonCompleted (studentProgress s a) m)"
    and "\<not> isEnrolled (studentProgress s a) \<Longrightarrow> lessonCompleted (studentProgress s a) = (\<lambda>_ _. False)"
    and "lessonCompleted (studentProgress s a) m l \<Longrightarrow> m < moduleCount s \<and> l < LESSONS_PER_MODULE"
  using assms unfolding consistent_def by blast+

lemma consistent_constructor: "consistent (constructor d)"
  by (rule consistentI)
     (simp_all add: constructor_def initializeModules_def zeroStorage_def zeroProgress_def percentOf_none)

lemma consistent_enroll:
  assumes c: "consistent s" and ok: "enrollStudent s a t = Inr s'"
  shows "consistent s'"
proof -
  note r = enrollStudent_result[OF ok]
  note d = consistentD[OF c]
  have none: "lessonCompleted (studentProgress s a) = (\<lambda>_ _. False)"
    using d(3) r(1) by simp
  have mp0: "moduleProgress (studentProgress s a) m = 0" for m
    using d(2)[of a m] none by (simp add: percentOf_none)
  have rp: "resetProgress 0 (moduleCount s) (moduleProgress (studentProgress s a)) m = 0" for m
    by (simp add: resetProgress_apply mp0)
  have mc: "moduleCount s' = moduleCount s" by (simp add: r(2))
  have other: "studentProgress s' b = studentProgress s b" if "b \<noteq> a" for b
    using that by (simp add: r(2))
  have lc: "lessonCompleted (studentProgress s' a) = (\<lambda>_ _. False)" by (simp add: r(2) none)
  have mpa: "moduleProgress (studentProgress s' a) m = 0" for m by (simp add: r(2) rp)
  show ?thesis
  proof (rule consistentI)
    show "moduleCount s' \<noteq> 0" using d(1) mc by simp
    show "moduleProgress (studentProgress s' b) m = percentOf (lessonCompleted (studentProgress s' b) m)" for b m
      by (cases "b = a") (simp_all add: lc mpa percentOf_none other d(2))
    show "lessonCompleted (studentProgress s' b) = (\<lambda>_ _. False)" if "\<not> isEnrolled (studentProgress s' b)" for b
      using that by (cases "b = a") (simp_all add: lc other d(3))
    show "m < moduleCount s' \<and> l < LESSONS_PER_MODULE" if "lessonCompleted (studentProgress s' b) m l" for b m l
      using that d(4)[of b m l] by (cases "b = a") (simp_all add: lc other mc)
  qed
qed

lemma consistent_complete:
  assumes c: "consistent s" and ok: "completeLesson s a ts m l cp = Inr s'"
  shows "consistent s'"
proof -
  note f = completeLesson_fields[OF ok]
  note d = consistentD[OF c]
  have pre: "m < moduleCount s \<and> l < LESSONS_PER_MODULE"
    using ok by (rule completeLesson_result) simp
  show ?thesis
  proof (rule consistentI)
    show "moduleCount s' \<noteq> 0" using d(1) f(9) by simp
    show "moduleProgress (studentProgress s' b) k = percentOf (lessonCompleted (studentProgress s' b) k)" for b k
    proof (cases "b = a")
      case False
      then show ?thesis using d(2)[of b k] completeLesson_others[OF ok False] by simp
    next
      case True
      show ?thesis
      proof (cases "k = m")
        case km: True
        show ?thesis unfolding True km by (subst f(2)) simp
      next
        case km: False
        have "moduleProgress (studentProgress s' a) k = moduleProgress (studentProgress s a) k"
          by (subst f(2)) (simp add: km)
        moreover have "lessonCompleted (studentProgress s' a) k = lessonCompleted (studentProgress s a) k"
          by (subst f(1)) (simp add: km)
        ultimately show ?thesis using d(2)[of a k] unfolding True by simp
      qed
    qed
    show "lessonCompleted (studentProgress s' b) = (\<lambda>_ _. False)" if "\<not> isEnrolled (studentProgress s' b)" for b
    proof (cases "b = a")
      case True
      with that f(6) show ?thesis by simp
    next
      case False
      then show ?thesis using d(3)[of b] that completeLesson_others[OF ok False] by simp
    qed
    show "k < moduleCount s' \<and> j < LESSONS_PER_MODULE" if "lessonCompleted (studentProgress s' b) k j" for b k j
    proof (cases "b = a")
      case False
      then show ?thesis using d(4)[of b k j] that completeLesson_others[OF ok False] f(9) by simp
    next
      case True
      show ?thesis
      proof (cases "k = m \<and> j = l")
        case True
        then show ?thesis using pre f(9) by simp
      next
        case kj: False
        then have "lessonCompleted (studentProgress s' a) k j = lessonCompleted (studentProgress s a) k j"
          by (subst f(1)) auto
        then show ?thesis using d(4)[of a k j] that f(9) unfolding True by simp
      qed
    qed
  qed
qed

lemma consistent_addModule:
  assumes c: "consistent s" and ok: "addModule s a nm k = Inr s'"
  shows "consistent s'"
proof -
  note r = addModule_result[OF ok]
  note d = consistentD[OF c]
  have "unat (moduleCount s) < 255" using r(2) by (simp add: word_less_nat_alt)
  then have suc: "unat (moduleCount s + 1) = Suc (unat (moduleCount s))"
    by (simp add: unat_word_ariths)
  have nz: "moduleCount s + 1 \<noteq> 0" using suc by auto
  have grow: "i < moduleCount s + 1" if "i < moduleCount s" for i
    using that suc by (simp add: word_less_nat_alt)
  have sp: "studentProgress s' = studentProgress s" and mc: "moduleCount s' = moduleCount s + 1"
    by (simp_all add: r(3))
  show ?thesis
  proof (rule consistentI)
    show "moduleCount s' \<noteq> 0" using nz mc by simp
    show "moduleProgress (studentProgress s' b) m = percentOf (lessonCompleted (studentProgress s' b) m)" for b m
      using d(2)[of b m] by (simp add: sp)
    show "lessonCompleted (studentProgress s' b) = (\<lambda>_ _. False)" if "\<not> isEnrolled (studentProgress s' b)" for b
      using that d(3)[of b] by (simp add: sp)
    show "m < moduleCount s' \<and> l < LESSONS_PER_MODULE" if "lessonCompleted (studentProgress s' b) m l" for b m l
      using that d(4)[of b m l] grow[of m] by (simp add: sp mc)
  qed
qed

lemma consistent_toggle:
  assumes c: "consistent s" and ok: "toggleModule s a m = Inr s'"
  shows "consistent s'"
proof -
  have "studentProgress s' = studentProgress s" "moduleCount s' = moduleCount s"
    by (simp_all add: toggleModule_result(3)[OF ok])
  then show ?thesis using c by (simp add: consistent_def)
qed

lemma consistent_exec:
  assumes "consistent s" and "exec s a t c = Inr s'"
  shows "consistent s'"
  using assms
  by (cases c) (auto intro: consistent_enroll consistent_complete consistent_addModule consistent_toggle)

lemma reachable_consistent: "reachable s \<Longrightarrow> consistent s"
  by (induction rule: reachable.induct) (auto intro: consistent_constructor consistent_exec)

lemma exec_transact: "exec s a t c = Inr s' \<Longrightarrow> transact s a t c = s'"
  by (simp add: transact_def)

lemma exec_succeeds: "\<not> isl (exec s a t c) \<Longrightarrow> exec s a t c = Inr (transact s a t c)"
  by (cases "exec s a t c") (simp_all add: transact_def)

lemma exec_fails: "exec s a t c = Inl e \<Longrightarrow> transact s a t c = s"
  by (simp add: transact_def)

lemma reachable_transact: "reachable s \<Longrightarrow> reachable (transact s a t c)"
  by (cases "exec s a t c") (auto simp: transact_def intro: reachable.step)

lemma reachable_run: "reachable s \<Longrightarrow> reachable (run s txs)"
proof (induction txs arbitrary: s)
  case Nil
  then show ?case by simp
next
  case (Cons x txs)
  obtain a t c where x: "x = (a, t, c)" by (cases x)
  from Cons.IH[OF reachable_transact[OF Cons.prems, of a t c]] show ?case by (simp add: x)
qed

section \<open>Further facts about the operations\<close>

lemma enrolled_exec:
  assumes en: "isEnrolled (studentProgress s a)" and ok: "exec s b t c = Inr s'"
  shows "isEnrolled (studentProgress s' a)"
proof (cases c)
  case EnrollStudent
  with ok have e: "enrollStudent s b t = Inr s'" by simp
  show ?thesis using en enrollStudent_result(1)[OF e] by (subst enrollStudent_result(2)[OF e]) auto
next
  case (CompleteLesson m l cp)
  with ok have e: "completeLesson s b t m l cp = Inr s'" by simp
  show ?thesis
  proof (cases "a = b")
    case True
    then show ?thesis using completeLesson_fields(6)[OF e] by simp
  next
    case False
    then show ?thesis using completeLesson_others[OF e False] en by simp
  qed
next
  case (AddModule nm k)
  with ok have e: "addModule s b nm k = Inr s'" by simp
  show ?thesis using en by (simp add: addModule_result(3)[OF e])
next
  case (ToggleModule m)
  with ok have e: "toggleModule s b m = Inr s'" by simp
  show ?thesis using en by (simp add: toggleModule_result(3)[OF e])
qed

lemma enrolled_transact:
  "isEnrolled (studentProgress s a) \<Longrightarrow> isEnrolled (studentProgress (transact s b t c) a)"
  by (cases "exec s b t c") (auto simp: transact_def intro: enrolled_exec)

lemma enrolled_run:
  "isEnrolled (studentProgress s a) \<Longrightarrow> isEnrolled (studentProgress (run s txs) a)"
proof (induction txs arbitrary: s)
  case Nil
  then show ?case by simp
next
  case (Cons x txs)
  obtain b t c where x: "x = (b, t, c)" by (cases x)
  from Cons.IH[OF enrolled_transact[OF Cons.prems, of b t c]] show ?case by (simp add: x)
qed

lemma fresh_exec:
  assumes en: "isEnrolled (studentProgress s a)"
    and day: "t div 86400 \<le> lastActiveDay (studentProgress s a)"
    and ok: "exec s b t c = Inr s'"
  shows "learningStreak (studentProgress s' a) = learningStreak (studentProgress s a)
       \<and> lastActiveDay (studentProgress s' a) = lastActiveDay (studentProgress s a)"
proof (cases c)
  case EnrollStudent
  with ok have e: "enrollStudent s b t = Inr s'" by simp
  have "b \<noteq> a" using en enrollStudent_result(1)[OF e] by auto
  then show ?thesis by (subst enrollStudent_result(2)[OF e], subst enrollStudent_result(2)[OF e]) simp
next
  case (CompleteLesson m l cp)
  with ok have e: "completeLesson s b t m l cp = Inr s'" by simp
  show ?thesis
  proof (cases "b = a")
    case True
    have ng: "\<not> lastActiveDay (studentProgress s a) < t div 86400" using day by simp
    show ?thesis
      using completeLesson_streak(1,2)[OF e] ng unfolding True by simp
  next
    case False
    then have "a \<noteq> b" by simp
    from completeLesson_others[OF e this] show ?thesis by simp
  qed
next
  case (AddModule nm k)
  with ok have e: "addModule s b nm k = Inr s'" by simp
  show ?thesis by (simp add: addModule_result(3)[OF e])
next
  case (ToggleModule m)
  with ok have e: "toggleModule s b m = Inr s'" by simp
  show ?thesis by (simp add: toggleModule_result(3)[OF e])
qed

lemma fresh_run:
  assumes "isEnrolled (studentProgress s a)"
    and "\<forall>(b, t, c) \<in> set txs. t div 86400 \<le> lastActiveDay (studentProgress s a)"
  shows "learningStreak (studentProgress (run s txs) a) = learningStreak (studentProgress s a)
       \<and> lastActiveDay (studentProgress (run s txs) a) = lastActiveDay (studentProgress s a)"
  using assms
proof (induction txs arbitrary: s)
  case Nil
  then show ?case by simp
next
  case (Cons x txs)
  obtain b t c where x: "x = (b, t, c)" by (cases x)
  let ?s' = "transact s b t c"
  have day: "t div 86400 \<le> lastActiveDay (studentProgress s a)" using Cons.prems(2) by (simp add: x)
  have keep: "learningStreak (studentProgress ?s' a) = learningStreak (studentProgress s a)
       \<and> lastActiveDay (studentProgress ?s' a) = lastActiveDay (studentProgress s a)"
  proof (cases "exec s b t c")
    case (Inl e)
    then show ?thesis by (simp add: transact_def)
  next
    case (Inr s')
    with fresh_exec[OF Cons.prems(1) day Inr] show ?thesis by (simp add: transact_def)
  qed
  have en': "isEnrolled (studentProgress ?s' a)" using Cons.prems(1) by (rule enrolled_transact)
  have days': "\<forall>(b, t, c) \<in> set txs. t div 86400 \<le> lastActiveDay (studentProgress ?s' a)"
    using Cons.prems(2) keep by (simp add: x)
  from Cons.IH[OF en' days'] keep show ?case by (simp add: x)
qed

lemma next_day_unat:
  fixes d lad :: uint256
  assumes "lad < d"
  shows "d = lad + 1 \<longleftrightarrow> unat d = unat lad + 1"
proof -
  have "unat lad < unat d" using assms by (simp add: word_less_nat_alt)
  moreover have "unat d < 2 ^ 256" using unsigned_less[of d, where 'a = nat] by simp
  ultimately have "unat lad + 1 < 2 ^ 256" by simp
  then have "unat (lad + 1) = unat lad + 1" by (simp add: unat_word_ariths)
  then show ?thesis by (simp add: word_eq_iff_unsigned[where ?'a = nat])
qed

lemma completeLesson_spec_streak:
  assumes ok: "completeLesson s a ts m l c = Inr s'"
  shows "spec_streak_update (studentProgress s a) (ts div 86400) c (studentProgress s' a)"
proof -
  let ?d = "ts div 86400"
  let ?lad = "lastActiveDay (studentProgress s a)"
  let ?k = "learningStreak (studentProgress s a)"
  note st = completeLesson_streak[OF ok]
  show ?thesis
  proof (cases "?lad < ?d \<and> c")
    case False
    then have "\<not> (c \<and> unat ?lad + 1 \<le> unat ?d)" by (auto simp: word_less_nat_alt)
    then have n1: "\<not> (c \<and> unat ?d = unat ?lad + 1)" and n2: "\<not> (c \<and> unat ?d > unat ?lad + 1)"
      by auto
    from False st(1,2) have "learningStreak (studentProgress s' a) = ?k"
      "lastActiveDay (studentProgress s' a) = ?lad" by auto
    then show ?thesis using n1 n2 by (auto simp: spec_streak_update_def)
  next
    case True
    then have lt: "?lad < ?d" and c: c by simp_all
    note nd = next_day_unat[OF lt]
    show ?thesis
    proof (cases "?d = ?lad + 1")
      case eq: True
      have "unat ?k \<noteq> 4294967295" using st(3) True eq by blast
      moreover have "unat ?k < 2 ^ 32" using unsigned_less[of ?k, where 'a = nat] by simp
      ultimately have "unat ?k + 1 < 2 ^ 32" by simp
      then have u: "unat (?k + 1) = unat ?k + 1" by (simp add: unat_word_ariths)
      have u1: "unat ?d = unat ?lad + 1" using eq nd by simp
      from st(1,2) True eq have "learningStreak (studentProgress s' a) = ?k + 1"
        "lastActiveDay (studentProgress s' a) = ?d" by auto
      then show ?thesis using u u1 c by (auto simp: spec_streak_update_def)
    next
      case ne: False
      have n1: "unat ?d \<noteq> unat ?lad + 1" using ne nd by simp
      have "unat ?lad < unat ?d" using lt by (simp add: word_less_nat_alt)
      with n1 have gap: "unat ?d > unat ?lad + 1" by simp
      from st(1,2) True ne have "learningStreak (studentProgress s' a) = 1"
        "lastActiveDay (studentProgress s' a) = ?d" by auto
      then show ?thesis using n1 gap c by (auto simp: spec_streak_update_def)
    qed
  qed
qed

lemma streak_scenario:
  assumes e: "enrollStudent s0 b t0 = Inr s1" and d0: "t0 div 86400 < 10"
    and c1: "completeLesson s1 b t1 m1 l1 True = Inr s2" and d1: "t1 div 86400 = 10"
    and c2: "completeLesson s2 b t2 m2 l2 True = Inr s3" and d2: "t2 div 86400 = 11"
    and c3: "completeLesson s3 b t3 m3 l3 True = Inr s4" and d3: "t3 div 86400 = 15"
    and c4: "completeLesson s4 b t4 m4 l4 True = Inr s5" and d4: "t4 div 86400 = 15"
  shows "learningStreak (studentProgress s2 b) = 1 \<and> lastActiveDay (studentProgress s2 b) = 10
       \<and> learningStreak (studentProgress s3 b) = 2
       \<and> learningStreak (studentProgress s4 b) = 1 \<and> lastActiveDay (studentProgress s4 b) = 15
       \<and> learningStreak (studentProgress s5 b) = 1"
proof -
  have s1: "learningStreak (studentProgress s1 b) = 0"
    "lastActiveDay (studentProgress s1 b) = t0 div 86400"
    by (subst enrollStudent_result(2)[OF e], simp)+
  have s2: "learningStreak (studentProgress s2 b) = 1" "lastActiveDay (studentProgress s2 b) = 10"
    using completeLesson_streak(1,2)[OF c1] d0 by (simp_all add: s1 d1)
  have s3: "learningStreak (studentProgress s3 b) = 2" "lastActiveDay (studentProgress s3 b) = 11"
    using completeLesson_streak(1,2)[OF c2] by (simp_all add: s2 d2)
  have s4: "learningStreak (studentProgress s4 b) = 1" "lastActiveDay (studentProgress s4 b) = 15"
    using completeLesson_streak(1,2)[OF c3] by (simp_all add: s3 d3)
  have s5: "learningStreak (studentProgress s5 b) = 1"
    using completeLesson_streak(1,2)[OF c4] by (simp_all add: s4 d4)
  show ?thesis using s2 s3 s4 s5 by simp
qed

lemma unat_percent_hundred: "unat (percentOf row) = completedCount row * 100 div unat LESSONS_PER_MODULE"
  by (simp add: unat_percentOf LESSONS_PER_MODULE_def)

lemma updateStreak_overflow:
  assumes "c" and "lastActiveDay p < d" and "d = lastActiveDay p + 1"
    and "unat (learningStreak p) = 4294967295"
  shows "updateStreak p d c = Inl (Panic 17)"
  using assms by (simp add: updateStreak_def checked_add32_def)

lemma completeLesson_outcome:
  assumes cs: "consistent s"
  shows "if \<not> isEnrolled (studentProgress s a) then completeLesson s a ts m l c = Inl NotEnrolled
         else if \<not> m < moduleCount s then completeLesson s a ts m l c = Inl UnknownModule
         else if \<not> l < LESSONS_PER_MODULE then completeLesson s a ts m l c = Inl UnknownLesson
         else if \<not> isActive (learningModules s m) then completeLesson s a ts m l c = Inl ModuleInactive
         else if c \<and> lastActiveDay (studentProgress s a) < ts div 86400
                 \<and> ts div 86400 = lastActiveDay (studentProgress s a) + 1
                 \<and> unat (learningStreak (studentProgress s a)) = 4294967295
           then completeLesson s a ts m l c = Inl (Panic 17)
         else (\<exists>s'. completeLesson s a ts m l c = Inr s')"
proof -
  let ?p = "studentProgress s a"
  let ?p1 = "?p\<lparr> lessonCompleted := (lessonCompleted ?p)(m := (lessonCompleted ?p m)(l := c)) \<rparr>"
  let ?d = "ts div 86400"
  let ?ovf = "c \<and> lastActiveDay ?p < ?d \<and> ?d = lastActiveDay ?p + 1 \<and> unat (learningStreak ?p) = 4294967295"
  have f: "lastActiveDay ?p1 = lastActiveDay ?p" "learningStreak ?p1 = learningStreak ?p" by simp_all
  have ovf: "completeLesson s a ts m l c = Inl (Panic 17)"
    if pre: "isEnrolled ?p" "m < moduleCount s" "l < LESSONS_PER_MODULE" "isActive (learningModules s m)"
      and o: ?ovf
  proof -
    have o1: c and o2: "lastActiveDay ?p1 < ?d" and o3: "?d = lastActiveDay ?p1 + 1"
      and o4: "unat (learningStreak ?p1) = 4294967295"
      using o unfolding f by blast+
    have "updateStreak ?p1 ?d c = Inl (Panic 17)"
      using o1 o2 o3 o4 by (rule updateStreak_overflow)
    then show ?thesis using pre by (simp add: completeLesson_def Let_def)
  qed
  have good: "\<exists>s'. completeLesson s a ts m l c = Inr s'"
    if pre: "isEnrolled ?p" "m < moduleCount s" "l < LESSONS_PER_MODULE" "isActive (learningModules s m)"
      and o: "\<not> ?ovf"
  proof -
    have "\<not> (c \<and> ?d = lastActiveDay ?p1 + 1 \<and> lastActiveDay ?p1 < ?d \<and> unat (learningStreak ?p1) = 4294967295)"
      using o unfolding f by blast
    then obtain p2 where us: "updateStreak ?p1 ?d c = Inr p2"
      using updateStreak_ok[of ?p1 ?d c] by blast
    let ?s1 = "s\<lparr> studentProgress := (studentProgress s)(a := p2),
                     events := events s @ [LessonCompleted a m l] \<rparr>"
    have mp2: "moduleProgress p2 = moduleProgress ?p" using updateStreak_cases(2)[OF us] by simp
    have le: "\<forall>k. unat (progressAfter ?s1 a m k) \<le> 100"
    proof
      fix k
      show "unat (progressAfter ?s1 a m k) \<le> 100"
        using percentOf_le consistentD(2)[OF cs, of a k]
        by (simp add: progressAfter_def mp2)
    qed
    have b: "progressSum (progressAfter ?s1 a m) 0 (unat (moduleCount ?s1)) < 2 ^ 32"
      by (rule progressSum_bounded[OF le])
    have nz: "moduleCount ?s1 \<noteq> 0" using pre(2) by auto
    have "\<exists>s'. updateProgress ?s1 a m = Inr s'"
      by (subst updateProgress_eq) (simp only: b nz not_True_eq_False if_False, blast)
    then show ?thesis using pre us by (simp add: completeLesson_def Let_def)
  qed
  show ?thesis
    using ovf good
    by (auto simp: completeLesson_def NotEnrolled_def UnknownModule_def UnknownLesson_def ModuleInactive_def)
qed

lemma percentOf_hundred: "percentOf row = 100 \<longleftrightarrow> row 0 \<and> row 1 \<and> row 2 \<and> row 3"
proof -
  have "percentOf row = 100 \<longleftrightarrow> unat (percentOf row) = 100"
    by (simp add: word_eq_iff_unsigned[where ?'a = nat])
  also have "\<dots> \<longleftrightarrow> completedCount row = 4" by (simp add: unat_percentOf)
  also have "\<dots> \<longleftrightarrow> row 0 \<and> row 1 \<and> row 2 \<and> row 3" by (simp add: completedCount_eval)
  finally show ?thesis .
qed

section \<open>The example states\<close>

lemmas day_defs = day9_def day10_def day11_def day15_def day15b_def

lemmas demo_defs = shortModule_def shortFirst_def longModule_def inactiveModule_def

lemma day9_ok: "enrollStudent (constructor 1) 2 777600 = Inr day9"
proof -
  have "\<not> isl (exec (constructor 1) 2 777600 EnrollStudent)" by (simp add: eval_simps)
  from exec_succeeds[OF this] show ?thesis by (simp add: day9_def)
qed

lemma day10_ok: "completeLesson day9 2 864000 0 0 True = Inr day10"
proof -
  have "\<not> isl (exec day9 2 864000 (CompleteLesson 0 0 True))" by (simp add: day_defs eval_simps)
  from exec_succeeds[OF this] show ?thesis by (simp add: day10_def)
qed

lemma day11_ok: "completeLesson day10 2 950400 0 1 True = Inr day11"
proof -
  have "\<not> isl (exec day10 2 950400 (CompleteLesson 0 1 True))" by (simp add: day_defs eval_simps)
  from exec_succeeds[OF this] show ?thesis by (simp add: day11_def)
qed

lemma day15_ok: "completeLesson day11 2 1296000 0 2 True = Inr day15"
proof -
  have "\<not> isl (exec day11 2 1296000 (CompleteLesson 0 2 True))" by (simp add: day_defs eval_simps)
  from exec_succeeds[OF this] show ?thesis by (simp add: day15_def)
qed

lemma day15b_ok: "completeLesson day15 2 1300000 0 3 True = Inr day15b"
proof -
  have "\<not> isl (exec day15 2 1300000 (CompleteLesson 0 3 True))" by (simp add: day_defs eval_simps)
  from exec_succeeds[OF this] show ?thesis by (simp add: day15b_def)
qed

lemma shortFirst_ok: "completeLesson shortModule 2 0 4 0 True = Inr shortFirst"
proof -
  have "\<not> isl (exec shortModule 2 0 (CompleteLesson 4 0 True))" by (simp add: demo_defs eval_simps)
  from exec_succeeds[OF this] show ?thesis by (simp add: shortFirst_def)
qed

lemma reachable_days: "reachable day9" "reachable day10" "reachable day11" "reachable day15" "reachable day15b"
  unfolding day_defs by (intro reachable_transact reachable.deployed)+

lemma reachable_shortModule: "reachable shortModule"
  unfolding shortModule_def by (intro reachable_transact reachable.deployed)

section \<open>The claims\<close>

text \<open>
  Claim C1, as the code has it. After a successful \<open>completeLesson\<close> in a reachable
  state the caller's derived fields are the recomputation from the completion flags: the
  stored percentage of every module, the affected one included, is the truncated
  \<open>completed * 100 / LESSONS_PER_MODULE\<close> with the fixed constant 4, where \<open>completed\<close>
  counts the flags of the lessons 0 to 3, whatever lesson count the module was configured
  with, and so the truncated \<open>completed * 100 / lessonCount\<close> for a module whose lesson
  count is 4; \<open>completedLessons\<close> is the number of flags set over all modules (and no flag
  is set outside the modules of the catalog and their lessons); \<open>totalProgress\<close> is the
  sum of the module percentages divided by \<open>moduleCount\<close>, truncated. With four modules
  at 100, 0, 0 and 0 it is 25.
\<close>

theorem completeLesson_recomputes:
  assumes "reachable s" and "completeLesson s a ts m l c = Inr s'"
  shows "(\<forall>k. unat (moduleProgress (studentProgress s' a) k)
              = completedCount (lessonCompleted (studentProgress s' a) k) * 100 div unat LESSONS_PER_MODULE)
       \<and> (\<forall>k. totalLessons (learningModules s' k) = LESSONS_PER_MODULE \<longrightarrow>
              unat (moduleProgress (studentProgress s' a) k)
                = completedCount (lessonCompleted (studentProgress s' a) k) * 100
                    div unat (totalLessons (learningModules s' k)))
       \<and> unat (completedLessons (studentProgress s' a))
           = completedSum (lessonCompleted (studentProgress s' a)) 0 (unat (moduleCount s'))
       \<and> (\<forall>k j. lessonCompleted (studentProgress s' a) k j \<longrightarrow> k < moduleCount s' \<and> j < LESSONS_PER_MODULE)
       \<and> unat (totalProgress (studentProgress s' a))
           = progressSum (moduleProgress (studentProgress s' a)) 0 (unat (moduleCount s')) div unat (moduleCount s')
       \<and> (moduleCount s' = 4 \<and> moduleProgress (studentProgress s' a) 0 = 100
            \<and> moduleProgress (studentProgress s' a) 1 = 0 \<and> moduleProgress (studentProgress s' a) 2 = 0
            \<and> moduleProgress (studentProgress s' a) 3 = 0
          \<longrightarrow> totalProgress (studentProgress s' a) = 25)"
proof -
  have "exec s a ts (CompleteLesson m l c) = Inr s'" using assms(2) by simp
  with assms(1) have "reachable s'" by (rule reachable.step)
  then have c': "consistent s'" by (rule reachable_consistent)
  note d = consistentD[OF c']
  note f = completeLesson_fields[OF assms(2)]
  let ?p = "studentProgress s' a"
  let ?n = "unat (moduleCount s')"
  have p1: "unat (moduleProgress ?p k) = completedCount (lessonCompleted ?p k) * 100 div unat LESSONS_PER_MODULE" for k
    by (simp only: d(2) unat_percent_hundred)
  have "completedSum (lessonCompleted ?p) 0 ?n \<le> 4 * ?n"
    using completedSum_le[of "lessonCompleted ?p" 0 ?n] by simp
  moreover have "?n < 2 ^ 8" using unsigned_less[of "moduleCount s'", where 'a = nat] by simp
  ultimately have "completedSum (lessonCompleted ?p) 0 ?n < 2 ^ 32" by simp
  then have p2: "unat (completedLessons ?p) = completedSum (lessonCompleted ?p) 0 ?n"
    by (subst f(4)) (rule unat_of_nat32)
  have p3: "k < moduleCount s' \<and> j < LESSONS_PER_MODULE" if "lessonCompleted ?p k j" for k j
    using that by (rule d(4))
  have p4: "unat (totalProgress ?p) = progressSum (moduleProgress ?p) 0 ?n div ?n"
    by (subst f(3)) (simp add: unat_div unat_of_nat32[OF f(5)] unat_ucast_8_32)
  have p5: "totalProgress ?p = 25"
    if h: "moduleCount s' = 4 \<and> moduleProgress ?p 0 = 100 \<and> moduleProgress ?p 1 = 0
           \<and> moduleProgress ?p 2 = 0 \<and> moduleProgress ?p 3 = 0"
  proof -
    have "progressSum (moduleProgress ?p) 0 4 = 100"
      using h by (simp add: progressSum_rec)
    with p4 h have "unat (totalProgress ?p) = 25" by simp
    then show ?thesis by (simp add: word_eq_iff_unsigned[where ?'a = nat])
  qed
  have p1': "unat (moduleProgress ?p k) = completedCount (lessonCompleted ?p k) * 100
                  div unat (totalLessons (learningModules s' k))"
    if "totalLessons (learningModules s' k) = LESSONS_PER_MODULE" for k
    using p1[of k] that by simp
  show ?thesis using p1 p1' p2 p3 p4 p5 by blast
qed

theorem completeLesson_recomputes_witness:
  "reachable day15 \<and> completeLesson day15 2 1300000 0 3 True = Inr day15b
   \<and> moduleCount day15b = 4 \<and> moduleProgress (studentProgress day15b 2) 0 = 100
   \<and> moduleProgress (studentProgress day15b 2) 1 = 0 \<and> moduleProgress (studentProgress day15b 2) 2 = 0
   \<and> moduleProgress (studentProgress day15b 2) 3 = 0
   \<and> totalProgress (studentProgress day15b 2) = 25
   \<and> unat (completedLessons (studentProgress day15b 2)) = 4
   \<and> lessonCompleted (studentProgress day15b 2) 0 3
   \<and> (0::uint8) < moduleCount day15b \<and> (3::uint8) < LESSONS_PER_MODULE
   \<and> totalLessons (learningModules day15b 0) = LESSONS_PER_MODULE
   \<and> unat (moduleProgress (studentProgress day15b 2) 0)
       = completedCount (lessonCompleted (studentProgress day15b 2) 0) * 100
           div unat (totalLessons (learningModules day15b 0))"
proof -
  note t = completeLesson_recomputes[OF reachable_days(4) day15b_ok]
  have mc: "moduleCount day15b = 4"
    by (simp add: day_defs eval_simps)
  have mp: "moduleProgress (studentProgress day15b 2) 0 = 100"
    "moduleProgress (studentProgress day15b 2) 1 = 0" "moduleProgress (studentProgress day15b 2) 2 = 0"
    "moduleProgress (studentProgress day15b 2) 3 = 0"
    by (simp_all add: day_defs eval_simps)
  from t mc mp have tp: "totalProgress (studentProgress day15b 2) = 25" by blast
  have cl: "unat (completedLessons (studentProgress day15b 2)) = 4"
    by (simp add: day_defs eval_simps)
  have lc: "lessonCompleted (studentProgress day15b 2) 0 3"
    by (simp add: day_defs eval_simps)
  with t have rg: "(0::uint8) < moduleCount day15b \<and> (3::uint8) < LESSONS_PER_MODULE" by blast
  have tl: "totalLessons (learningModules day15b 0) = LESSONS_PER_MODULE"
    by (simp add: day_defs eval_simps)
  with t have pc: "unat (moduleProgress (studentProgress day15b 2) 0)
       = completedCount (lessonCompleted (studentProgress day15b 2) 0) * 100
           div unat (totalLessons (learningModules day15b 0))" by blast
  from cl lc rg tp mc mp tl pc reachable_days(4) day15b_ok show ?thesis by blast
qed

theorem completeLesson_three_lessons_counterexample:
  "reachable shortTwo \<and> completeLesson shortTwo 2 0 4 2 True = Inr shortThree
   \<and> moduleCount shortThree = 5 \<and> totalLessons (learningModules shortThree 4) = 3
   \<and> completedCount (lessonCompleted (studentProgress shortThree 2) 4) = 3
   \<and> unat (moduleProgress (studentProgress shortThree 2) 4) = 75
   \<and> unat (moduleProgress (studentProgress shortThree 2) 4)
        \<noteq> completedCount (lessonCompleted (studentProgress shortThree 2) 4) * 100
            div unat (totalLessons (learningModules shortThree 4))
   \<and> unat (totalProgress (studentProgress shortThree 2)) = 15"
proof -
  have r: "reachable shortTwo"
    unfolding shortTwo_def by (intro reachable_run reachable_shortModule)
  have "\<not> isl (exec shortTwo 2 0 (CompleteLesson 4 2 True))"
    by (simp add: shortTwo_def demo_defs eval_simps)
  from exec_succeeds[OF this] have ok: "completeLesson shortTwo 2 0 4 2 True = Inr shortThree"
    by (simp add: shortThree_def)
  have a: "moduleCount shortThree = 5" "totalLessons (learningModules shortThree 4) = 3"
    by (simp_all add: shortThree_def shortTwo_def demo_defs eval_simps)
  have b: "completedCount (lessonCompleted (studentProgress shortThree 2) 4) = 3"
    by (simp add: shortThree_def shortTwo_def demo_defs eval_simps)
  have c: "unat (moduleProgress (studentProgress shortThree 2) 4) = 75"
    by (simp add: shortThree_def shortTwo_def demo_defs eval_simps)
  have d: "unat (totalProgress (studentProgress shortThree 2)) = 15"
    by (simp add: shortThree_def shortTwo_def demo_defs eval_simps)
  show ?thesis using r ok by (simp add: a b c d)
qed

text \<open>
  Claim C2, as the code has it. After a successful \<open>completeLesson\<close> the percentage of
  the affected module is 25 times the number of completed lessons among its lessons 0 to
  3, that is the truncated \<open>completed * 100 / LESSONS_PER_MODULE\<close> with the fixed constant 4,
  whatever lesson count the module was configured with; it is the truncated
  \<open>completed * 100 / lessonCount\<close> when the module's lesson count is 4.
\<close>

theorem moduleProgress_fixed_lessons:
  assumes "completeLesson s a ts m l c = Inr s'"
  shows "unat (moduleProgress (studentProgress s' a) m)
           = completedCount (lessonCompleted (studentProgress s' a) m) * 25
       \<and> unat (moduleProgress (studentProgress s' a) m)
           = completedCount (lessonCompleted (studentProgress s' a) m) * 100 div unat LESSONS_PER_MODULE
       \<and> (totalLessons (learningModules s' m) = LESSONS_PER_MODULE \<longrightarrow>
            unat (moduleProgress (studentProgress s' a) m)
              = completedCount (lessonCompleted (studentProgress s' a) m) * 100
                  div unat (totalLessons (learningModules s' m)))"
proof -
  have "moduleProgress (studentProgress s' a) m = percentOf (lessonCompleted (studentProgress s' a) m)"
    by (subst completeLesson_fields(2)[OF assms]) simp
  then show ?thesis by (simp add: unat_percentOf LESSONS_PER_MODULE_def)
qed

theorem moduleProgress_fixed_lessons_witness:
  "completeLesson day9 2 864000 0 0 True = Inr day10
   \<and> totalLessons (learningModules day10 0) = LESSONS_PER_MODULE
   \<and> completedCount (lessonCompleted (studentProgress day10 2) 0) = 1
   \<and> unat (moduleProgress (studentProgress day10 2) 0) = 1 * 100 div unat (totalLessons (learningModules day10 0))
   \<and> unat (moduleProgress (studentProgress day10 2) 0) = 25"
proof -
  note t = moduleProgress_fixed_lessons[OF day10_ok]
  have tl: "totalLessons (learningModules day10 0) = LESSONS_PER_MODULE"
    by (simp add: day_defs eval_simps)
  have cc: "completedCount (lessonCompleted (studentProgress day10 2) 0) = 1"
    by (simp add: day_defs eval_simps)
  from t tl cc day10_ok show ?thesis by simp
qed

theorem moduleProgress_three_lessons_counterexample:
  "completeLesson shortModule 2 0 4 0 True = Inr shortFirst
   \<and> totalLessons (learningModules shortFirst 4) = 3
   \<and> completedCount (lessonCompleted (studentProgress shortFirst 2) 4) = 1
   \<and> unat (moduleProgress (studentProgress shortFirst 2) 4) = 25
   \<and> unat (moduleProgress (studentProgress shortFirst 2) 4)
        \<noteq> completedCount (lessonCompleted (studentProgress shortFirst 2) 4) * 100
            div unat (totalLessons (learningModules shortFirst 4))"
proof -
  have a: "totalLessons (learningModules shortFirst 4) = 3"
    by (simp add: demo_defs eval_simps)
  have b: "completedCount (lessonCompleted (studentProgress shortFirst 2) 4) = 1"
    by (simp add: demo_defs eval_simps)
  have c: "unat (moduleProgress (studentProgress shortFirst 2) 4) = 25"
    by (simp add: demo_defs eval_simps)
  show ?thesis using shortFirst_ok by (simp add: a b c)
qed

text \<open>
  Claim C3. A successful \<open>completeLesson\<close> updates the streak as the specification says:
  with \<open>completed = true\<close>, a call on the day after \<open>lastActiveDay\<close> adds one to the streak
  and a call after a gap sets it to 1, both moving \<open>lastActiveDay\<close> to today; a call on
  \<open>lastActiveDay\<close> itself or on an earlier day, and every call with \<open>completed = false\<close>,
  changes neither. So an account enrolled before day 10 that completes lessons on the days
  10, 11, 15 and 15 has the streaks 1, 2, 1 and 1, with \<open>lastActiveDay\<close> 10 after the first
  and 15 after the third.
\<close>

theorem streak_update_rule:
  "(completeLesson s a ts m l c = Inr s' \<longrightarrow>
      spec_streak_update (studentProgress s a) (ts div 86400) c (studentProgress s' a))
   \<and> (enrollStudent s0 b t0 = Inr s1 \<and> t0 div 86400 < 10
        \<and> completeLesson s1 b t1 m1 l1 True = Inr s2 \<and> t1 div 86400 = 10
        \<and> completeLesson s2 b t2 m2 l2 True = Inr s3 \<and> t2 div 86400 = 11
        \<and> completeLesson s3 b t3 m3 l3 True = Inr s4 \<and> t3 div 86400 = 15
        \<and> completeLesson s4 b t4 m4 l4 True = Inr s5 \<and> t4 div 86400 = 15 \<longrightarrow>
      learningStreak (studentProgress s2 b) = 1 \<and> lastActiveDay (studentProgress s2 b) = 10
      \<and> learningStreak (studentProgress s3 b) = 2
      \<and> learningStreak (studentProgress s4 b) = 1 \<and> lastActiveDay (studentProgress s4 b) = 15
      \<and> learningStreak (studentProgress s5 b) = 1)"
proof (intro conjI impI)
  assume "completeLesson s a ts m l c = Inr s'"
  then show "spec_streak_update (studentProgress s a) (ts div 86400) c (studentProgress s' a)"
    by (rule completeLesson_spec_streak)
next
  assume h: "enrollStudent s0 b t0 = Inr s1 \<and> t0 div 86400 < 10
        \<and> completeLesson s1 b t1 m1 l1 True = Inr s2 \<and> t1 div 86400 = 10
        \<and> completeLesson s2 b t2 m2 l2 True = Inr s3 \<and> t2 div 86400 = 11
        \<and> completeLesson s3 b t3 m3 l3 True = Inr s4 \<and> t3 div 86400 = 15
        \<and> completeLesson s4 b t4 m4 l4 True = Inr s5 \<and> t4 div 86400 = 15"
  then have "learningStreak (studentProgress s2 b) = 1 \<and> lastActiveDay (studentProgress s2 b) = 10
       \<and> learningStreak (studentProgress s3 b) = 2
       \<and> learningStreak (studentProgress s4 b) = 1 \<and> lastActiveDay (studentProgress s4 b) = 15
       \<and> learningStreak (studentProgress s5 b) = 1"
    by (intro streak_scenario[of s0 b t0 s1 t1 m1 l1 s2 t2 m2 l2 s3 t3 m3 l3 s4 t4 m4 l4 s5]) simp_all
  then show "learningStreak (studentProgress s2 b) = 1" 
    and "lastActiveDay (studentProgress s2 b) = 10"
    and "learningStreak (studentProgress s3 b) = 2"
    and "learningStreak (studentProgress s4 b) = 1"
    and "lastActiveDay (studentProgress s4 b) = 15"
    and "learningStreak (studentProgress s5 b) = 1"
    by simp_all
qed

theorem streak_update_rule_witness:
  "completeLesson day10 2 950400 0 1 True = Inr day11
   \<and> spec_streak_update (studentProgress day10 2) 11 True (studentProgress day11 2)
   \<and> enrollStudent (constructor 1) 2 777600 = Inr day9
   \<and> completeLesson day9 2 864000 0 0 True = Inr day10
   \<and> completeLesson day11 2 1296000 0 2 True = Inr day15
   \<and> completeLesson day15 2 1300000 0 3 True = Inr day15b
   \<and> learningStreak (studentProgress day10 2) = 1 \<and> lastActiveDay (studentProgress day10 2) = 10
   \<and> learningStreak (studentProgress day11 2) = 2
   \<and> learningStreak (studentProgress day15 2) = 1 \<and> lastActiveDay (studentProgress day15 2) = 15
   \<and> learningStreak (studentProgress day15b 2) = 1"
proof -
  note r = streak_update_rule[of day10 2 950400 0 1 True day11
      "constructor 1" 2 777600 day9 864000 0 0 day10 950400 0 1 day11 1296000 0 2 day15 1300000 0 3 day15b]
  have d: "(950400 :: uint256) div 86400 = 11" "(777600 :: uint256) div 86400 < 10"
    "(864000 :: uint256) div 86400 = 10" "(1296000 :: uint256) div 86400 = 15"
    "(1300000 :: uint256) div 86400 = 15"
    by simp_all
  from r[THEN conjunct1] day11_ok d(1)
  have g: "spec_streak_update (studentProgress day10 2) 11 True (studentProgress day11 2)" by simp
  from r[THEN conjunct2] day9_ok day10_ok day11_ok day15_ok day15b_ok d
  have sc: "learningStreak (studentProgress day10 2) = 1 \<and> lastActiveDay (studentProgress day10 2) = 10
   \<and> learningStreak (studentProgress day11 2) = 2
   \<and> learningStreak (studentProgress day15 2) = 1 \<and> lastActiveDay (studentProgress day15 2) = 15
   \<and> learningStreak (studentProgress day15b 2) = 1" by blast
  from g sc day9_ok day10_ok day11_ok day15_ok day15b_ok show ?thesis by blast
qed

text \<open>
  Claim C4, as the code has it. In a reachable state \<open>completeLesson\<close> checks in this
  order, the first failure winning: \<open>NotEnrolled\<close> if the caller is not enrolled,
  \<open>UnknownModule\<close> if \<open>moduleId \<ge> moduleCount\<close>, \<open>UnknownLesson\<close> if
  \<open>lessonId \<ge> LESSONS_PER_MODULE\<close> (the fixed constant 4, not the lesson count of the
  module), \<open>ModuleInactive\<close> if the module is not active. When all four hold the call
  succeeds, unless it is a completion on the day after \<open>lastActiveDay\<close> with the streak at
  \<open>2^32 - 1\<close>, where the checked increment aborts it.
\<close>

theorem completeLesson_checks:
  assumes "reachable s"
  shows "if \<not> isEnrolled (studentProgress s a) then completeLesson s a ts m l c = Inl NotEnrolled
         else if \<not> m < moduleCount s then completeLesson s a ts m l c = Inl UnknownModule
         else if \<not> l < LESSONS_PER_MODULE then completeLesson s a ts m l c = Inl UnknownLesson
         else if \<not> isActive (learningModules s m) then completeLesson s a ts m l c = Inl ModuleInactive
         else if c \<and> lastActiveDay (studentProgress s a) < ts div 86400
                 \<and> ts div 86400 = lastActiveDay (studentProgress s a) + 1
                 \<and> unat (learningStreak (studentProgress s a)) = 4294967295
           then completeLesson s a ts m l c = Inl (Panic 17)
         else (\<exists>s'. completeLesson s a ts m l c = Inr s')"
  using reachable_consistent[OF assms] by (rule completeLesson_outcome)

theorem completeLesson_checks_witness:
  "reachable inactiveModule
   \<and> completeLesson inactiveModule 3 864000 0 0 True = Inl NotEnrolled
   \<and> completeLesson inactiveModule 2 864000 9 0 True = Inl UnknownModule
   \<and> completeLesson inactiveModule 2 864000 0 4 True = Inl UnknownLesson
   \<and> completeLesson inactiveModule 2 864000 1 0 True = Inl ModuleInactive
   \<and> (\<exists>s'. completeLesson inactiveModule 2 864000 0 0 True = Inr s')"
proof -
  have r: "reachable inactiveModule"
    unfolding inactiveModule_def by (intro reachable_transact reachable_days)
  have f: "\<not> isEnrolled (studentProgress inactiveModule 3)" "isEnrolled (studentProgress inactiveModule 2)"
    "moduleCount inactiveModule = 4" "\<not> isActive (learningModules inactiveModule 1)"
    "isActive (learningModules inactiveModule 0)"
    "learningStreak (studentProgress inactiveModule 2) = 0"
    by (simp_all add: inactiveModule_def day_defs eval_simps)
  from completeLesson_checks[OF r, of 3 864000 0 0 True] f
  have a: "completeLesson inactiveModule 3 864000 0 0 True = Inl NotEnrolled" by simp
  from completeLesson_checks[OF r, of 2 864000 9 0 True] f
  have b: "completeLesson inactiveModule 2 864000 9 0 True = Inl UnknownModule" by simp
  from completeLesson_checks[OF r, of 2 864000 0 4 True] f
  have c: "completeLesson inactiveModule 2 864000 0 4 True = Inl UnknownLesson"
    by (simp add: LESSONS_PER_MODULE_def)
  from completeLesson_checks[OF r, of 2 864000 1 0 True] f
  have d: "completeLesson inactiveModule 2 864000 1 0 True = Inl ModuleInactive"
    by (simp add: LESSONS_PER_MODULE_def)
  from completeLesson_checks[OF r, of 2 864000 0 0 True] f
  have e: "\<exists>s'. completeLesson inactiveModule 2 864000 0 0 True = Inr s'"
    by (simp add: LESSONS_PER_MODULE_def)
  from r a b c d e show ?thesis by blast
qed

theorem completeLesson_lesson_bound_counterexample:
  "isEnrolled (studentProgress longModule 2) \<and> 4 < moduleCount longModule
   \<and> totalLessons (learningModules longModule 4) = 10 \<and> 5 < totalLessons (learningModules longModule 4)
   \<and> isActive (learningModules longModule 4)
   \<and> completeLesson longModule 2 0 4 5 True = Inl UnknownLesson"
  by (simp add: demo_defs eval_simps UnknownLesson_def)

text \<open>
  Claim C5, as the code has it. A successful \<open>completeLesson\<close> appends to the log, in this
  order, \<open>LessonCompleted\<close>, then \<open>ModuleCompleted\<close> exactly when the recomputed percentage
  of the affected module equals 100, then \<open>ProgressUpdated\<close>. The test is on the value, not
  on a change: a call that leaves a completed module at 100 emits \<open>ModuleCompleted\<close> again.
\<close>

theorem completeLesson_events:
  assumes "completeLesson s a ts m l c = Inr s'"
  shows "events s' = events s @ [LessonCompleted a m l]
           @ (if moduleProgress (studentProgress s' a) m = 100 then [ModuleCompleted a m] else [])
           @ [ProgressUpdated a]"
  using assms by (rule completeLesson_fields(10))

theorem completeLesson_events_witness:
  "completeLesson day15 2 1300000 0 3 True = Inr day15b
   \<and> moduleProgress (studentProgress day15 2) 0 = 75
   \<and> moduleProgress (studentProgress day15b 2) 0 = 100
   \<and> events day15b = events day15 @ [LessonCompleted 2 0 3, ModuleCompleted 2 0, ProgressUpdated 2]
   \<and> completeLesson day11 2 1296000 0 2 True = Inr day15
   \<and> events day15 = events day11 @ [LessonCompleted 2 0 2, ProgressUpdated 2]"
proof -
  have p: "moduleProgress (studentProgress day15 2) 0 = 75" "moduleProgress (studentProgress day15b 2) 0 = 100"
    by (simp_all add: day_defs eval_simps)
  from completeLesson_events[OF day15b_ok] p
  have a: "events day15b = events day15 @ [LessonCompleted 2 0 3, ModuleCompleted 2 0, ProgressUpdated 2]"
    by simp
  from completeLesson_events[OF day15_ok] p
  have b: "events day15 = events day11 @ [LessonCompleted 2 0 2, ProgressUpdated 2]"
    by simp
  from a b p day15b_ok day15_ok show ?thesis by blast
qed

theorem moduleCompleted_repeated_counterexample:
  "moduleProgress (studentProgress day15b 2) 0 = 100
   \<and> \<not> isl (completeLesson day15b 2 1300000 0 3 True)
   \<and> moduleProgress (studentProgress (projr (completeLesson day15b 2 1300000 0 3 True)) 2) 0 = 100
   \<and> events (projr (completeLesson day15b 2 1300000 0 3 True))
        = events day15b @ [LessonCompleted 2 0 3, ModuleCompleted 2 0, ProgressUpdated 2]"
  by (simp add: day_defs eval_simps)

text \<open>
  Claim C6. Once \<open>enrollStudent\<close> has succeeded for an account, then after any further
  transactions (of any senders, completions among them) a second \<open>enrollStudent\<close> of that
  account fails with \<open>AlreadyEnrolled\<close>, and the reverted call leaves the whole storage,
  the account's record included, exactly as those transactions left it. Every failing
  call reverts in the same way.
\<close>

theorem enrollStudent_twice:
  assumes "enrollStudent s a t0 = Inr s1"
  shows "enrollStudent (run s1 txs) a t = Inl AlreadyEnrolled
       \<and> transact (run s1 txs) a t EnrollStudent = run s1 txs
       \<and> (isl (exec (run s1 txs) b t' c) \<longrightarrow> transact (run s1 txs) b t' c = run s1 txs)"
proof -
  have "isEnrolled (studentProgress s1 a)"
    by (subst enrollStudent_result(2)[OF assms]) simp
  then have "isEnrolled (studentProgress (run s1 txs) a)" by (rule enrolled_run)
  then have f: "enrollStudent (run s1 txs) a t = Inl AlreadyEnrolled"
    by (simp add: enrollStudent_def AlreadyEnrolled_def)
  have g: "transact (run s1 txs) b t' c = run s1 txs" if "isl (exec (run s1 txs) b t' c)"
    using that by (cases "exec (run s1 txs) b t' c") (simp_all add: transact_def)
  show ?thesis using f g by (simp add: transact_def)
qed

theorem enrollStudent_twice_witness:
  "enrollStudent (constructor 1) 2 0 = Inr (transact (constructor 1) 2 0 EnrollStudent)
   \<and> enrollStudent (run (transact (constructor 1) 2 0 EnrollStudent) [(2, 90000, CompleteLesson 0 1 True)])
        2 100000 = Inl AlreadyEnrolled
   \<and> isl (exec (run (transact (constructor 1) 2 0 EnrollStudent) [(2, 90000, CompleteLesson 0 1 True)])
        2 100000 EnrollStudent)
   \<and> learningStreak (studentProgress
        (transact (run (transact (constructor 1) 2 0 EnrollStudent) [(2, 90000, CompleteLesson 0 1 True)])
           2 100000 EnrollStudent) 2) = 1"
proof -
  have "\<not> isl (exec (constructor 1) 2 0 EnrollStudent)"
    by (simp add: eval_simps)
  then have e: "enrollStudent (constructor 1) 2 0 = Inr (transact (constructor 1) 2 0 EnrollStudent)"
    using exec_succeeds[of "constructor 1" 2 0 EnrollStudent] by simp
  let ?s = "run (transact (constructor 1) 2 0 EnrollStudent) [(2, 90000, CompleteLesson 0 1 True)]"
  note t = enrollStudent_twice[OF e, of "[(2, 90000, CompleteLesson 0 1 True)]" 100000 2 100000 EnrollStudent]
  have st: "learningStreak (studentProgress ?s 2) = 1"
    by (simp add: eval_simps)
  from t have i: "isl (exec ?s 2 100000 EnrollStudent)" by (simp add: AlreadyEnrolled_def)
  with t have "transact ?s 2 100000 EnrollStudent = ?s" by blast
  with st have "learningStreak (studentProgress (transact ?s 2 100000 EnrollStudent) 2) = 1" by simp
  with e t i show ?thesis by blast
qed

text \<open>
  Claim C7, as the code has it. Called by the owner, \<open>addModule\<close> fails with
  \<open>CapacityExceeded\<close> exactly when \<open>moduleCount\<close> is already 255, and the reverted call
  leaves the storage, so the catalog and its length, as it was. It does not look at the
  lesson count: in every other case, and so also for a lesson count of zero, it succeeds,
  stores the module \<open>{name, lessonCount, active}\<close> under the id \<open>moduleCount\<close>, raises
  \<open>moduleCount\<close> by one and leaves every other catalog entry and all student records
  unchanged.
\<close>

theorem addModule_capacity:
  assumes "sender = owner s"
  shows "if moduleCount s = 255
         then addModule s sender nm k = Inl CapacityExceeded
              \<and> transact s sender ts (AddModule nm k) = s
         else (\<exists>s'. addModule s sender nm k = Inr s'
              \<and> unat (moduleCount s') = unat (moduleCount s) + 1
              \<and> learningModules s' (moduleCount s) = \<lparr> name = nm, totalLessons = k, isActive = True \<rparr>
              \<and> (\<forall>i. i \<noteq> moduleCount s \<longrightarrow> learningModules s' i = learningModules s i)
              \<and> studentProgress s' = studentProgress s \<and> owner s' = owner s \<and> events s' = events s)"
proof (cases "moduleCount s = 255")
  case True
  then have "addModule s sender nm k = Inl CapacityExceeded"
    using assms by (simp add: addModule_def CapacityExceeded_def)
  then show ?thesis using True by (simp add: transact_def)
next
  case False
  have "unat (moduleCount s) < 2 ^ 8" using unsigned_less[of "moduleCount s", where 'a = nat] by simp
  moreover have "unat (moduleCount s) \<noteq> 255"
    using False by (simp add: word_eq_iff_unsigned[where ?'a = nat])
  ultimately have lt: "unat (moduleCount s) < 255" by simp
  then have less: "moduleCount s < 255" by (simp add: word_less_nat_alt)
  have suc: "unat (moduleCount s + 1) = unat (moduleCount s) + 1"
    using lt by (simp add: unat_word_ariths)
  show ?thesis
    using False assms less suc by (simp add: addModule_def)
qed

theorem addModule_capacity_witness:
  "(1::address) = owner fullCatalog \<and> moduleCount fullCatalog = 255
   \<and> addModule fullCatalog 1 ''Extra'' 4 = Inl CapacityExceeded
   \<and> transact fullCatalog 1 0 (AddModule ''Extra'' 4) = fullCatalog
   \<and> (1::address) = owner (constructor 1) \<and> moduleCount (constructor 1) \<noteq> 255
   \<and> (\<exists>s'. addModule (constructor 1) 1 ''Extra'' 0 = Inr s' \<and> unat (moduleCount s') = 5
          \<and> totalLessons (learningModules s' 4) = 0
          \<and> learningModules s' 0 = learningModules (constructor 1) 0)"
proof -
  have o1: "(1::address) = owner fullCatalog"
    by (simp add: fullCatalog_def constructor_def initializeModules_def)
  have m1: "moduleCount fullCatalog = 255" by (simp add: fullCatalog_def)
  have o2: "(1::address) = owner (constructor 1)"
    by (simp add: constructor_def initializeModules_def)
  have m2: "moduleCount (constructor 1) = 4" by (simp add: constructor_def initializeModules_def)
  from addModule_capacity[OF o1, of "''Extra''" 4 0] m1
  have a: "addModule fullCatalog 1 ''Extra'' 4 = Inl CapacityExceeded
   \<and> transact fullCatalog 1 0 (AddModule ''Extra'' 4) = fullCatalog" by simp
  from addModule_capacity[OF o2, of "''Extra''" 0 0] m2
  have b: "\<exists>s'. addModule (constructor 1) 1 ''Extra'' 0 = Inr s' \<and> unat (moduleCount s') = 5
          \<and> totalLessons (learningModules s' 4) = 0
          \<and> learningModules s' 0 = learningModules (constructor 1) 0"
    by auto
  from a b o1 m1 o2 m2 show ?thesis by simp
qed

theorem addModule_zero_lessons_counterexample:
  "\<not> isl (addModule (constructor 1) 1 ''Extra'' 0)
   \<and> moduleCount (projr (addModule (constructor 1) 1 ''Extra'' 0)) = 5
   \<and> totalLessons (learningModules (projr (addModule (constructor 1) 1 ''Extra'' 0)) 4) = 0"
  by (simp add: addModule_def constructor_def initializeModules_def)

text \<open>
  Claim C8. In every reachable state the stored percentage of every module of every
  account is one of 0, 25, 50, 75 and 100, and it is 100 exactly when the lessons 0 to 3
  of the module are completed. The configured lesson count plays no part: a successful
  \<open>completeLesson\<close> has \<open>lessonId < LESSONS_PER_MODULE\<close>, and for an enrolled caller, a module
  of the catalog that is active and a streak below \<open>2^32 - 1\<close> the call succeeds exactly
  when \<open>lessonId < LESSONS_PER_MODULE\<close>.
\<close>

theorem moduleProgress_quarters:
  assumes "reachable s"
  shows "moduleProgress (studentProgress s a) m \<in> {0, 25, 50, 75, 100}
       \<and> (moduleProgress (studentProgress s a) m = 100 \<longleftrightarrow>
            lessonCompleted (studentProgress s a) m 0 \<and> lessonCompleted (studentProgress s a) m 1
            \<and> lessonCompleted (studentProgress s a) m 2 \<and> lessonCompleted (studentProgress s a) m 3)
       \<and> ((\<exists>s'. completeLesson s a ts m l c = Inr s') \<longrightarrow> l < LESSONS_PER_MODULE)
       \<and> (isEnrolled (studentProgress s a) \<and> m < moduleCount s \<and> isActive (learningModules s m)
            \<and> unat (learningStreak (studentProgress s a)) < 4294967295 \<longrightarrow>
          ((\<exists>s'. completeLesson s a ts m l c = Inr s') \<longleftrightarrow> l < LESSONS_PER_MODULE))"
proof -
  have cs: "consistent s" using assms by (rule reachable_consistent)
  have mp: "moduleProgress (studentProgress s a) m = percentOf (lessonCompleted (studentProgress s a) m)"
    by (rule consistentD(2)[OF cs])
  have p1: "moduleProgress (studentProgress s a) m \<in> {0, 25, 50, 75, 100}"
    unfolding mp by (rule percentOf_values)
  have p2: "moduleProgress (studentProgress s a) m = 100 \<longleftrightarrow>
            lessonCompleted (studentProgress s a) m 0 \<and> lessonCompleted (studentProgress s a) m 1
            \<and> lessonCompleted (studentProgress s a) m 2 \<and> lessonCompleted (studentProgress s a) m 3"
    unfolding mp by (rule percentOf_hundred)
  have p3: "l < LESSONS_PER_MODULE" if "\<exists>s'. completeLesson s a ts m l c = Inr s'"
  proof -
    from that obtain s' where "completeLesson s a ts m l c = Inr s'" ..
    then show ?thesis by (rule completeLesson_result)
  qed
  have p4: "\<exists>s'. completeLesson s a ts m l c = Inr s'"
    if "isEnrolled (studentProgress s a) \<and> m < moduleCount s \<and> isActive (learningModules s m)
            \<and> unat (learningStreak (studentProgress s a)) < 4294967295" and "l < LESSONS_PER_MODULE"
    using completeLesson_outcome[OF cs, of a ts m l c] that by simp
  show ?thesis using p1 p2 p3 p4 by blast
qed

theorem moduleProgress_quarters_witness:
  "reachable shortDone \<and> totalLessons (learningModules shortDone 4) = 3
   \<and> lessonCompleted (studentProgress shortDone 2) 4 0 \<and> lessonCompleted (studentProgress shortDone 2) 4 1
   \<and> lessonCompleted (studentProgress shortDone 2) 4 2 \<and> lessonCompleted (studentProgress shortDone 2) 4 3
   \<and> moduleProgress (studentProgress shortDone 2) 4 = 100
   \<and> isEnrolled (studentProgress shortDone 2) \<and> 4 < moduleCount shortDone
   \<and> isActive (learningModules shortDone 4)
   \<and> unat (learningStreak (studentProgress shortDone 2)) < 4294967295
   \<and> (\<exists>s'. completeLesson shortDone 2 0 4 3 True = Inr s')
   \<and> \<not> (\<exists>s'. completeLesson shortDone 2 0 4 4 True = Inr s')"
proof -
  have r: "reachable shortDone"
    unfolding shortDone_def by (intro reachable_run reachable_shortModule)
  have f: "totalLessons (learningModules shortDone 4) = 3"
    "lessonCompleted (studentProgress shortDone 2) 4 0" "lessonCompleted (studentProgress shortDone 2) 4 1"
    "lessonCompleted (studentProgress shortDone 2) 4 2" "lessonCompleted (studentProgress shortDone 2) 4 3"
    "isEnrolled (studentProgress shortDone 2)" "4 < moduleCount shortDone"
    "isActive (learningModules shortDone 4)"
    "unat (learningStreak (studentProgress shortDone 2)) < 4294967295"
    by (simp_all add: shortDone_def demo_defs eval_simps)
  from moduleProgress_quarters[OF r, of 2 4 0 3 True] f
  have a: "moduleProgress (studentProgress shortDone 2) 4 = 100"
    and b: "\<exists>s'. completeLesson shortDone 2 0 4 3 True = Inr s'"
    by (simp_all add: LESSONS_PER_MODULE_def)
  from moduleProgress_quarters[OF r, of 2 4 0 4 True] f
  have c: "\<not> (\<exists>s'. completeLesson shortDone 2 0 4 4 True = Inr s')"
    by (simp add: LESSONS_PER_MODULE_def)
  from r f a b c show ?thesis by blast
qed

text \<open>
  Claim C9. \<open>enrollStudent\<close> sets \<open>lastActiveDay\<close> to the day of the enrollment and the
  streak to 0. After any transactions that happen no later than that day, a successful
  completion of the account leaves \<open>learningStreak\<close> at 0 when it happens on the enrollment
  day; the streak becomes 1 only through a completion with \<open>completed = true\<close> on a later
  day.
\<close>

theorem streak_zero_on_enrollment_day:
  assumes "enrollStudent s a t0 = Inr s1"
    and "\<forall>(b, t', c') \<in> set txs. t' div 86400 \<le> t0 div 86400"
    and "completeLesson (run s1 txs) a t m l c = Inr s2"
  shows "learningStreak (studentProgress s2 a) = (if t0 div 86400 < t div 86400 \<and> c then 1 else 0)
       \<and> (t div 86400 = t0 div 86400 \<longrightarrow>
            learningStreak (studentProgress s2 a) = 0
            \<and> lastActiveDay (studentProgress s2 a) = t0 div 86400)"
proof -
  have s1: "isEnrolled (studentProgress s1 a)" "learningStreak (studentProgress s1 a) = 0"
    "lastActiveDay (studentProgress s1 a) = t0 div 86400"
    by (subst enrollStudent_result(2)[OF assms(1)], simp)+
  have days: "\<forall>(b, t', c') \<in> set txs. t' div 86400 \<le> lastActiveDay (studentProgress s1 a)"
    using assms(2) by (simp add: s1(3))
  from fresh_run[OF s1(1) days]
  have r: "learningStreak (studentProgress (run s1 txs) a) = 0"
    "lastActiveDay (studentProgress (run s1 txs) a) = t0 div 86400"
    by (simp_all add: s1)
  show ?thesis
    using completeLesson_streak(1,2)[OF assms(3)] by (simp add: r)
qed

theorem streak_zero_on_enrollment_day_witness:
  "enrollStudent (constructor 1) 2 100 = Inr (transact (constructor 1) 2 100 EnrollStudent)
   \<and> completeLesson (run (transact (constructor 1) 2 100 EnrollStudent) [(2, 200, CompleteLesson 1 0 True)])
        2 300 0 0 True
      = Inr (transact (run (transact (constructor 1) 2 100 EnrollStudent) [(2, 200, CompleteLesson 1 0 True)])
        2 300 (CompleteLesson 0 0 True))
   \<and> learningStreak (studentProgress
        (transact (run (transact (constructor 1) 2 100 EnrollStudent) [(2, 200, CompleteLesson 1 0 True)])
           2 300 (CompleteLesson 0 0 True)) 2) = 0"
proof -
  let ?s1 = "transact (constructor 1) 2 100 EnrollStudent"
  let ?txs = "[(2 :: address, 200 :: uint256, CompleteLesson 1 0 True)]"
  let ?s2 = "transact (run ?s1 ?txs) 2 300 (CompleteLesson 0 0 True)"
  have "\<not> isl (exec (constructor 1) 2 100 EnrollStudent)"
    by (simp add: eval_simps)
  then have e: "enrollStudent (constructor 1) 2 100 = Inr ?s1"
    using exec_succeeds[of "constructor 1" 2 100 EnrollStudent] by simp
  have d: "\<forall>(b, t', c') \<in> set ?txs. t' div 86400 \<le> (100 :: uint256) div 86400"
    by simp
  have "\<not> isl (exec (run ?s1 ?txs) 2 300 (CompleteLesson 0 0 True))"
    by (simp add: eval_simps)
  then have c: "completeLesson (run ?s1 ?txs) 2 300 0 0 True = Inr ?s2"
    using exec_succeeds[of "run ?s1 ?txs" 2 300 "CompleteLesson 0 0 True"] by simp
  have same: "(300 :: uint256) div 86400 = 100 div 86400" by simp
  from streak_zero_on_enrollment_day[OF e d c] same
  have "learningStreak (studentProgress ?s2 2) = 0" by simp
  with e c show ?thesis by simp
qed

text \<open>
  Claim C10. For the owner and every module id below \<open>moduleCount\<close>, \<open>toggleModule\<close>
  succeeds, a second \<open>toggleModule\<close> of the same module gives back the storage the first
  one started from, and one call changes only the \<open>isActive\<close> flag of that module: its name
  and lesson count, every other module, every student's record, the module count, the
  owner and the event log stay as they were.
\<close>

theorem toggleModule_involution:
  assumes "sender = owner s" and "m < moduleCount s"
  shows "\<exists>s1. toggleModule s sender m = Inr s1 \<and> toggleModule s1 sender m = Inr s
     \<and> isActive (learningModules s1 m) = (\<not> isActive (learningModules s m))
     \<and> name (learningModules s1 m) = name (learningModules s m)
     \<and> totalLessons (learningModules s1 m) = totalLessons (learningModules s m)
     \<and> (\<forall>k. k \<noteq> m \<longrightarrow> learningModules s1 k = learningModules s k)
     \<and> studentProgress s1 = studentProgress s \<and> moduleCount s1 = moduleCount s
     \<and> owner s1 = owner s \<and> events s1 = events s"
proof -
  let ?s1 = "s\<lparr> learningModules := (learningModules s)
                    (m := (learningModules s m) \<lparr> isActive := \<not> isActive (learningModules s m) \<rparr>) \<rparr>"
  have t1: "toggleModule s sender m = Inr ?s1"
    using assms by (simp add: toggleModule_def)
  have t2: "toggleModule ?s1 sender m = Inr s"
    using assms by (simp add: toggleModule_def)
  show ?thesis
    using t1 t2 by (intro exI[of _ ?s1]) simp
qed

theorem toggleModule_involution_witness:
  "(1::address) = owner (constructor 1) \<and> (2::uint8) < moduleCount (constructor 1)
   \<and> (\<exists>s1. toggleModule (constructor 1) 1 2 = Inr s1
          \<and> toggleModule s1 1 2 = Inr (constructor 1)
          \<and> \<not> isActive (learningModules s1 2)
          \<and> learningModules s1 0 = learningModules (constructor 1) 0)"
proof -
  have o: "(1::address) = owner (constructor 1)"
    by (simp add: constructor_def initializeModules_def)
  have m: "(2::uint8) < moduleCount (constructor 1)"
    by (simp add: constructor_def initializeModules_def)
  have a: "isActive (learningModules (constructor 1) 2)"
    by (simp add: constructor_def initializeModules_def)
  from toggleModule_involution[OF o m] a o m show ?thesis by auto
qed

end
